theory Spec2Isabelle
  imports Main "HOL-Library.Word" "HOL-Library.Char_ord" "HOL-Library.List_Lexorder"
begin

section \<open>The token store of \<open>src/auth-database.ts\<close>\<close>

text \<open>
  The class \<open>AuthDatabase\<close> keeps its whole state in one SQLite connection with two
  tables, \<open>tokens\<close> and \<open>rights\<close>. The model is a record of the two tables, each a list
  of rows in insertion order, and every prepared statement of the constructor is a
  function on that record. A statement that SQLite rejects returns an error and leaves
  the tables as they were (a single statement is atomic); the class opens no transaction,
  so each statement's effect is final as soon as it has run.

  JavaScript strings are modelled as \<open>string\<close>, the bytes of their UTF-8 encoding, and
  compared by equality and by the lexicographic order of their bytes, as the \<open>BINARY\<close>
  collation of a \<open>TEXT\<close> column does. \<open>expiration\<close> is an \<open>INTEGER\<close> column of a
  \<open>STRICT\<close> table, modelled as \<open>int\<close>: the model covers the calls whose \<open>expiration\<close>
  is an integer, the only numbers such a column stores, and the column holds those of 64
  bits. A value read back from a row goes through \<open>node:sqlite\<close>: a text ends at its
  first NUL character, and an integer outside the safe range of a JavaScript number
  raises a \<open>RangeError\<close>.

  What a method reads from outside is a parameter of its model: the bytes of the random
  source for \<open>generateToken\<close>, the value of the clock for \<open>verifyTokenValidity\<close>.
\<close>

subsection \<open>Types\<close>

text \<open>
  The four interfaces of the source share their field names; the fields carry a prefix
  here: \<open>tr_\<close> for \<open>AuthDatabaseTokensRow\<close>, \<open>rr_\<close> for \<open>AuthDatabaseRightsRow\<close>,
  \<open>tk_\<close> for \<open>AuthDatabaseToken\<close> and \<open>st_\<close> for \<open>AuthDatabaseSafeToken\<close>
  (\<open>Omit<AuthDatabaseToken, 'token'>\<close>).
\<close>

record AuthDatabaseTokensRow =
  tr_name :: string
  tr_expiration :: int
  tr_token :: string

record AuthDatabaseRightsRow =
  rr_name :: string
  rr_right :: string

record AuthDatabaseToken =
  tk_name :: string
  tk_expiration :: int
  tk_token :: string
  tk_rights :: "string list"

record AuthDatabaseSafeToken =
  st_name :: string
  st_expiration :: int
  st_rights :: "string list"

record database =
  tokens_table :: "AuthDatabaseTokensRow list"
  rights_table :: "AuthDatabaseRightsRow list"

text \<open>
  The errors a method can raise: the two \<open>Error\<close>s thrown by the class itself, the
  constraint failure raised by SQLite when an \<open>INSERT\<close> breaks a \<open>PRIMARY KEY\<close>,
  \<open>UNIQUE\<close> or \<open>FOREIGN KEY\<close> constraint or the type of a \<open>STRICT\<close> column, and the
  \<open>RangeError\<close> raised by \<open>node:sqlite\<close> when it reads an integer that a JavaScript
  number cannot hold exactly.
\<close>

datatype error =
  TokenAlreadyExists string
| TokenDoesNotExist string
| SqliteConstraint
| RangeError

subsection \<open>The schema and the prepared statements\<close>

text \<open>The database right after \<open>#init\<close> on a new location: both tables empty.\<close>

definition init :: database where
  "init = \<lparr>tokens_table = [], rights_table = []\<rparr>"

text \<open>
  What \<open>node:sqlite\<close> makes of a column when it builds the JavaScript object of a row.
  A \<open>TEXT\<close> value is read as a C string, which ends at the first NUL character. An
  \<open>INTEGER\<close> value becomes a number when its magnitude is at most \<open>2^53 - 1\<close>, and
  raises a \<open>RangeError\<close> otherwise (the connection does not read big integers).
\<close>

definition read_text :: "string \<Rightarrow> string" where
  "read_text s = takeWhile (\<lambda>c. c \<noteq> CHR 0x00) s"

definition read_integer :: "int \<Rightarrow> error + int" where
  "read_integer v = (if \<bar>v\<bar> \<le> 2 ^ 53 - 1 then Inr v else Inl RangeError)"

text \<open>
  A row of \<open>SELECT name, expiration\<close>, as stored and as read: the pair of the two
  columns.
\<close>

definition read_tokens_row :: "string \<times> int \<Rightarrow> error + string \<times> int" where
  "read_tokens_row row =
     (case row of (name, expiration) \<Rightarrow>
        (case read_integer expiration of
           Inl e \<Rightarrow> Inl e
         | Inr v \<Rightarrow> Inr (read_text name, v)))"

text \<open>
  \<open>StatementSync.get\<close>: the first row of the result, or \<open>undefined\<close>. \<open>get_row\<close>
  is the first stored row; \<open>get_text\<close> and \<open>get_tokens_row\<close> read it, for a statement
  that selects one text column and for one that selects \<open>name, expiration\<close>.
\<close>

definition get_row :: "'a list \<Rightarrow> 'a option" where
  "get_row rows = (case rows of [] \<Rightarrow> None | r # _ \<Rightarrow> Some r)"

definition get_text :: "string list \<Rightarrow> string option" where
  "get_text rows = (case get_row rows of None \<Rightarrow> None | Some s \<Rightarrow> Some (read_text s))"

definition get_tokens_row :: "(string \<times> int) list \<Rightarrow> error + (string \<times> int) option" where
  "get_tokens_row rows =
     (case get_row rows of
        None \<Rightarrow> Inr None
      | Some row \<Rightarrow>
          (case read_tokens_row row of
             Inl e \<Rightarrow> Inl e
           | Inr r \<Rightarrow> Inr (Some r)))"

text \<open>
  \<open>StatementSync.all\<close>: every row of the result, read in turn; the first row that
  cannot be read raises, and nothing is returned.
\<close>

fun all_tokens_rows :: "(string \<times> int) list \<Rightarrow> error + (string \<times> int) list" where
  "all_tokens_rows [] = Inr []"
| "all_tokens_rows (row # rows) =
     (case read_tokens_row row of
        Inl e \<Rightarrow> Inl e
      | Inr r \<Rightarrow>
          (case all_tokens_rows rows of
             Inl e \<Rightarrow> Inl e
           | Inr rs \<Rightarrow> Inr (r # rs)))"

definition all_texts :: "string list \<Rightarrow> string list" where
  "all_texts rows = map read_text rows"

text \<open>\<open>SELECT name FROM tokens WHERE name = ?\<close>\<close>

definition selectTokenFromNameStatement :: "database \<Rightarrow> string \<Rightarrow> string list" where
  "selectTokenFromNameStatement db name =
     map tr_name (filter (\<lambda>r. tr_name r = name) (tokens_table db))"

text \<open>
  An \<open>INTEGER\<close> column of a \<open>STRICT\<close> table takes the number bound to it when it is
  an integer strictly between \<open>- 2^63\<close> and \<open>2^63\<close>; any other number stays a
  \<open>REAL\<close>, which the column refuses.
\<close>

definition stores_as_integer :: "int \<Rightarrow> bool" where
  "stores_as_integer v \<longleftrightarrow> - (2 ^ 63) < v \<and> v < 2 ^ 63"

text \<open>
  \<open>INSERT INTO tokens (name, expiration, token) VALUES (?, ?, ?)\<close>: \<open>name\<close> is the
  primary key, \<open>token\<close> is \<open>UNIQUE\<close> and \<open>expiration\<close> is an \<open>INTEGER\<close> of a
  \<open>STRICT\<close> table. A refused insert stores nothing.
\<close>

definition insertTokenStatement :: "database \<Rightarrow> string \<Rightarrow> int \<Rightarrow> string \<Rightarrow> error + database" where
  "insertTokenStatement db name expiration token =
     (if name \<in> set (map tr_name (tokens_table db))
         \<or> token \<in> set (map tr_token (tokens_table db))
         \<or> \<not> stores_as_integer expiration
      then Inl SqliteConstraint
      else Inr (db\<lparr>tokens_table := tokens_table db @
                  [\<lparr>tr_name = name, tr_expiration = expiration, tr_token = token\<rparr>]\<rparr>))"

text \<open>
  \<open>INSERT INTO rights (name, right) VALUES (?, ?)\<close>: \<open>(name, right)\<close> is the primary
  key and \<open>name\<close> must reference a row of \<open>tokens\<close> (\<open>PRAGMA foreign_keys = ON\<close>).
\<close>

definition insertRightStatement :: "database \<Rightarrow> string \<Rightarrow> string \<Rightarrow> error + database" where
  "insertRightStatement db name right =
     (if \<lparr>rr_name = name, rr_right = right\<rparr> \<in> set (rights_table db)
         \<or> name \<notin> set (map tr_name (tokens_table db))
      then Inl SqliteConstraint
      else Inr (db\<lparr>rights_table := rights_table db @ [\<lparr>rr_name = name, rr_right = right\<rparr>]\<rparr>))"

text \<open>
  \<open>DELETE FROM tokens WHERE name = ?\<close>, with \<open>ON DELETE CASCADE\<close> on \<open>rights.name\<close>:
  the rights rows of every deleted token row go with it. The second component is
  \<open>changes\<close>, the number of rows of \<open>tokens\<close> the statement deleted (rows deleted by
  the cascade are not counted).
\<close>

definition deleteTokenFromNameStatement :: "database \<Rightarrow> string \<Rightarrow> database \<times> nat" where
  "deleteTokenFromNameStatement db name =
     (let deleted = filter (\<lambda>r. tr_name r = name) (tokens_table db)
      in (\<lparr>tokens_table = filter (\<lambda>r. tr_name r \<noteq> name) (tokens_table db),
           rights_table = (if deleted = [] then rights_table db
                           else filter (\<lambda>r. rr_name r \<noteq> name) (rights_table db))\<rparr>,
          length deleted))"

text \<open>
  \<open>SELECT name, expiration FROM tokens\<close>. The source casts the rows to
  \<open>AuthDatabaseTokensRow\<close>, but the statement selects two columns only: a result row
  is the pair of a name and an expiration, without the \<open>token\<close> column. The rows
  come in the order of the table.
\<close>

definition selectAllTokensStatement :: "database \<Rightarrow> (string \<times> int) list" where
  "selectAllTokensStatement db = map (\<lambda>r. (tr_name r, tr_expiration r)) (tokens_table db)"

text \<open>
  \<open>SELECT right FROM rights WHERE name = ?\<close>: a result row has the one column
  \<open>right\<close> and is modelled by its value. SQLite answers the query from the index of
  the primary key \<open>(name, right)\<close>, so the rows of one name come in the order of
  \<open>right\<close>, not in the order of their insertion.
\<close>

definition selectRightsFromNameStatement :: "database \<Rightarrow> string \<Rightarrow> string list" where
  "selectRightsFromNameStatement db name =
     map rr_right (sort_key rr_right (filter (\<lambda>r. rr_name r = name) (rights_table db)))"

text \<open>\<open>SELECT name FROM tokens WHERE token = ? AND (expiration > ? OR expiration = 0)\<close>\<close>

definition selectNotExpiredTokenFromTokenAndExpirationStatement ::
  "database \<Rightarrow> string \<Rightarrow> int \<Rightarrow> string list" where
  "selectNotExpiredTokenFromTokenAndExpirationStatement db token now =
     map tr_name (filter (\<lambda>r. tr_token r = token \<and> (tr_expiration r > now \<or> tr_expiration r = 0))
                    (tokens_table db))"

text \<open>
  \<open>SELECT name FROM rights WHERE name = (SELECT name FROM tokens WHERE token = ?) AND right = ?\<close>:
  the scalar subquery is the name of the first token row with that secret, or \<open>NULL\<close>
  when there is none, and no row is equal to \<open>NULL\<close>.
\<close>

definition selectTokenFromTokenAndRightStatement ::
  "database \<Rightarrow> string \<Rightarrow> string \<Rightarrow> string list" where
  "selectTokenFromTokenAndRightStatement db token right =
     (case get_row (map tr_name (filter (\<lambda>r. tr_token r = token) (tokens_table db))) of
        None \<Rightarrow> []
      | Some name \<Rightarrow>
          map rr_name (filter (\<lambda>r. rr_name r = name \<and> rr_right r = right) (rights_table db)))"

text \<open>\<open>SELECT name, expiration FROM tokens WHERE name = ?\<close>, prepared in \<open>getOptionalToken\<close>.\<close>

definition selectTokenRowFromName :: "database \<Rightarrow> string \<Rightarrow> (string \<times> int) list" where
  "selectTokenRowFromName db name =
     map (\<lambda>r. (tr_name r, tr_expiration r)) (filter (\<lambda>r. tr_name r = name) (tokens_table db))"

subsection \<open>The secret\<close>

text \<open>
  \<open>crypto.getRandomValues(new Uint8Array(32))\<close>: the random source is a parameter
  \<open>rnd\<close>, the byte it gives for each index of the array.
\<close>

definition getRandomValues :: "(nat \<Rightarrow> 8 word) \<Rightarrow> nat \<Rightarrow> 8 word list" where
  "getRandomValues rnd n = map rnd [0..<n]"

definition hexDigit :: "nat \<Rightarrow> char" where
  "hexDigit d = ''0123456789abcdef'' ! d"

text \<open>
  Modelled from the spec: \<open>uint8ArrayToHex\<close> is imported from the package
  \<open>@xstd/hex\<close>, which is not under \<open>src/\<close>. The spec describes the secret as 64
  hexadecimal characters for 32 bytes: each byte is rendered as two hexadecimal digits,
  the high one first, in lower case.
\<close>

definition uint8ArrayToHex :: "8 word list \<Rightarrow> string" where
  "uint8ArrayToHex bytes =
     concat (map (\<lambda>b. [hexDigit (unat b div 16), hexDigit (unat b mod 16)]) bytes)"

subsection \<open>The methods\<close>

text \<open>
  \<open>#getTokenRights\<close> takes the name and the expiration of a row as read and adds the
  rights found under that name: \<open>rightsRows.map(({ right }) => right)\<close> is the list of
  the values of the column \<open>right\<close>, as read.
\<close>

fun getTokenRights :: "database \<Rightarrow> string \<times> int \<Rightarrow> AuthDatabaseSafeToken" where
  "getTokenRights db (name, expiration) =
     \<lparr>st_name = name, st_expiration = expiration,
      st_rights = all_texts (selectRightsFromNameStatement db name)\<rparr>"

definition hasToken :: "database \<Rightarrow> string \<Rightarrow> bool" where
  "hasToken db name = (get_text (selectTokenFromNameStatement db name) \<noteq> None)"

text \<open>
  The loop \<open>for (const right of rights) this.#insertRightStatement.run(name, right)\<close>:
  the first failing insert raises and ends the loop; the rows inserted before it stay.
\<close>

fun insertRights :: "database \<Rightarrow> string \<Rightarrow> string list \<Rightarrow> database \<times> error option" where
  "insertRights db name [] = (db, None)"
| "insertRights db name (right # rest) =
     (case insertRightStatement db name right of
        Inl e \<Rightarrow> (db, Some e)
      | Inr db' \<Rightarrow> insertRights db' name rest)"

text \<open>
  \<open>generateToken\<close> returns the database it leaves behind together with the record or
  the error raised. \<open>expiration\<close> is optional and defaults to 0.
\<close>

definition generateToken ::
  "database \<Rightarrow> (nat \<Rightarrow> 8 word) \<Rightarrow> string \<Rightarrow> int option \<Rightarrow> string list
     \<Rightarrow> database \<times> (error + AuthDatabaseToken)" where
  "generateToken db rnd name expiration_opt rs =
     (let expiration = (case expiration_opt of None \<Rightarrow> 0 | Some e \<Rightarrow> e)
      in if hasToken db name then (db, Inl (TokenAlreadyExists name))
         else
           let token = ''auth-'' @ uint8ArrayToHex (getRandomValues rnd 32)
           in case insertTokenStatement db name expiration token of
                Inl e \<Rightarrow> (db, Inl e)
              | Inr db1 \<Rightarrow>
                  (case insertRights db1 name rs of
                     (db2, Some e) \<Rightarrow> (db2, Inl e)
                   | (db2, None) \<Rightarrow>
                       (db2, Inr \<lparr>tk_name = name, tk_expiration = expiration,
                                  tk_token = token, tk_rights = rs\<rparr>)))"

text \<open>
  \<open>getOptionalToken\<close> reads the row of the name and hands the row as read to
  \<open>#getTokenRights\<close>; a \<open>RangeError\<close> of the read leaves the method as it is raised.
\<close>

definition getOptionalToken :: "database \<Rightarrow> string \<Rightarrow> error + AuthDatabaseSafeToken option" where
  "getOptionalToken db name =
     (case get_tokens_row (selectTokenRowFromName db name) of
        Inl e \<Rightarrow> Inl e
      | Inr None \<Rightarrow> Inr None
      | Inr (Some tokensRow) \<Rightarrow> Inr (Some (getTokenRights db tokensRow)))"

definition getToken :: "database \<Rightarrow> string \<Rightarrow> error + AuthDatabaseSafeToken" where
  "getToken db name =
     (case getOptionalToken db name of
        Inl e \<Rightarrow> Inl e
      | Inr None \<Rightarrow> Inl (TokenDoesNotExist name)
      | Inr (Some token) \<Rightarrow> Inr token)"

definition deleteToken :: "database \<Rightarrow> string \<Rightarrow> database \<times> bool" where
  "deleteToken db name =
     (case deleteTokenFromNameStatement db name of (db', changes) \<Rightarrow> (db', changes > 0))"

definition listTokens :: "database \<Rightarrow> error + AuthDatabaseSafeToken list" where
  "listTokens db =
     (case all_tokens_rows (selectAllTokensStatement db) of
        Inl e \<Rightarrow> Inl e
      | Inr rows \<Rightarrow> Inr (map (getTokenRights db) rows))"

text \<open>
  \<open>verifyTokenValidity\<close> reads the clock: \<open>nowMs\<close> is the value of \<open>Date.now()\<close>,
  in milliseconds, and \<open>Math.floor(Date.now() / 1000)\<close> is \<open>nowMs div 1000\<close>
  (\<open>div\<close> on \<open>int\<close> rounds down).
\<close>

definition verifyTokenValidity :: "database \<Rightarrow> int \<Rightarrow> string \<Rightarrow> bool" where
  "verifyTokenValidity db nowMs token =
     (get_text (selectNotExpiredTokenFromTokenAndExpirationStatement db token (nowMs div 1000))
        \<noteq> None)"

definition verifyTokenRight :: "database \<Rightarrow> string \<Rightarrow> string \<Rightarrow> bool" where
  "verifyTokenRight db token right =
     (get_text (selectTokenFromTokenAndRightStatement db token right) \<noteq> None)"

subsection \<open>Calls and reachable databases\<close>

text \<open>
  A call of a public method, with what it reads from outside (the random source, the
  clock). \<open>run\<close> gives the database after the call, whether the call returned or
  raised: only \<open>generateToken\<close> and \<open>deleteToken\<close> run a statement that writes.
\<close>

datatype call =
  GenerateToken "nat \<Rightarrow> 8 word" string "int option" "string list"
| HasToken string
| GetToken string
| GetOptionalToken string
| DeleteToken string
| ListTokens
| VerifyTokenValidity int string
| VerifyTokenRight string string

fun run :: "call \<Rightarrow> database \<Rightarrow> database" where
  "run (GenerateToken rnd name expiration_opt rs) db = fst (generateToken db rnd name expiration_opt rs)"
| "run (DeleteToken name) db = fst (deleteToken db name)"
| "run (HasToken name) db = db"
| "run (GetToken name) db = db"
| "run (GetOptionalToken name) db = db"
| "run ListTokens db = db"
| "run (VerifyTokenValidity nowMs token) db = db"
| "run (VerifyTokenRight token right) db = db"

inductive reachable :: "database \<Rightarrow> bool" where
  reachable_init: "reachable init"
| reachable_run: "reachable db \<Longrightarrow> reachable (run c db)"

text \<open>
  The constraints of the schema: \<open>name\<close> is the primary key of \<open>tokens\<close>, \<open>token\<close> is
  unique, \<open>(name, right)\<close> is the primary key of \<open>rights\<close>, and every \<open>rights.name\<close>
  references a row of \<open>tokens\<close>.
\<close>

definition schema_ok :: "database \<Rightarrow> bool" where
  "schema_ok db \<longleftrightarrow>
     distinct (map tr_name (tokens_table db)) \<and>
     distinct (map tr_token (tokens_table db)) \<and>
     distinct (rights_table db) \<and>
     (\<forall>r \<in> set (rights_table db). rr_name r \<in> set (map tr_name (tokens_table db)))"

text \<open>The format of a secret: \<open>auth-\<close> and 64 hexadecimal digits.\<close>

definition is_secret :: "string \<Rightarrow> bool" where
  "is_secret s \<longleftrightarrow>
     length s = 69 \<and> take 5 s = ''auth-'' \<and> (\<forall>c \<in> set (drop 5 s). c \<in> set ''0123456789abcdef'')"

text \<open>The database with every stored secret blanked.\<close>

definition redact :: "database \<Rightarrow> database" where
  "redact db = db\<lparr>tokens_table := map (\<lambda>r. r\<lparr>tr_token := []\<rparr>) (tokens_table db)\<rparr>"

section \<open>Properties of the statements and of the methods\<close>

subsection \<open>Inserts, and the schema as an invariant\<close>


lemma get_row_None [simp]: "get_row xs = None \<longleftrightarrow> xs = []"
  by (simp add: get_row_def split: list.splits)

lemma get_row_Nil [simp]: "get_row [] = None"
  by (simp add: get_row_def)

lemma get_row_Cons [simp]: "get_row (x # xs) = Some x"
  by (simp add: get_row_def)

lemma get_text_None [simp]: "get_text xs = None \<longleftrightarrow> xs = []"
  by (cases xs) (simp_all add: get_text_def)

lemma hasToken_iff: "hasToken db n \<longleftrightarrow> n \<in> set (map tr_name (tokens_table db))"
  by (auto simp: hasToken_def selectTokenFromNameStatement_def filter_empty_conv)

lemma insertTokenStatement_Inr:
  "insertTokenStatement db n e t = Inr db1 \<longleftrightarrow>
     n \<notin> set (map tr_name (tokens_table db)) \<and> t \<notin> set (map tr_token (tokens_table db)) \<and>
     stores_as_integer e \<and>
     db1 = db\<lparr>tokens_table := tokens_table db @ [\<lparr>tr_name = n, tr_expiration = e, tr_token = t\<rparr>]\<rparr>"
  by (auto simp: insertTokenStatement_def)

lemma insertRightStatement_Inr:
  "insertRightStatement db n r = Inr db1 \<longleftrightarrow>
     \<lparr>rr_name = n, rr_right = r\<rparr> \<notin> set (rights_table db) \<and> n \<in> set (map tr_name (tokens_table db)) \<and>
     db1 = db\<lparr>rights_table := rights_table db @ [\<lparr>rr_name = n, rr_right = r\<rparr>]\<rparr>"
  by (auto simp: insertRightStatement_def)

lemma insertRights_result:
  "insertRights db n rs = (db2, res) \<Longrightarrow>
     tokens_table db2 = tokens_table db \<and>
     (\<exists>k\<le>length rs. rights_table db2 = rights_table db @ map (\<lambda>r. \<lparr>rr_name = n, rr_right = r\<rparr>) (take k rs)
        \<and> (res = None \<longleftrightarrow> k = length rs))"
proof (induction rs arbitrary: db)
  case Nil
  then show ?case by simp
next
  case (Cons r rs)
  show ?case
  proof (cases "insertRightStatement db n r")
    case (Inl e)
    with Cons.prems have "db2 = db" "res = Some e" by simp_all
    then show ?thesis by (intro conjI exI [of _ 0]) simp_all
  next
    case (Inr db1)
    then have db1: "tokens_table db1 = tokens_table db"
      "rights_table db1 = rights_table db @ [\<lparr>rr_name = n, rr_right = r\<rparr>]"
      by (simp_all add: insertRightStatement_Inr)
    from Inr Cons.prems have "insertRights db1 n rs = (db2, res)" by simp
    from Cons.IH [OF this] obtain k where k: "k \<le> length rs"
      "tokens_table db2 = tokens_table db1"
      "rights_table db2 = rights_table db1 @ map (\<lambda>r. \<lparr>rr_name = n, rr_right = r\<rparr>) (take k rs)"
      "res = None \<longleftrightarrow> k = length rs"
      by blast
    then show ?thesis using db1 by (intro conjI exI [of _ "Suc k"]) simp_all
  qed
qed

lemma insertTokenStatement_schema_ok:
  "insertTokenStatement db n e t = Inr db1 \<Longrightarrow> schema_ok db \<Longrightarrow> schema_ok db1"
  by (auto simp: insertTokenStatement_Inr schema_ok_def)

lemma insertRightStatement_schema_ok:
  "insertRightStatement db n r = Inr db1 \<Longrightarrow> schema_ok db \<Longrightarrow> schema_ok db1"
  by (auto simp: insertRightStatement_Inr schema_ok_def)

lemma insertRights_schema_ok:
  "insertRights db n rs = (db2, res) \<Longrightarrow> schema_ok db \<Longrightarrow> schema_ok db2"
proof (induction rs arbitrary: db)
  case Nil
  then show ?case by simp
next
  case (Cons r rs)
  then show ?case
    by (cases "insertRightStatement db n r") (auto dest: insertRightStatement_schema_ok)
qed

lemma generateToken_schema_ok:
  "schema_ok db \<Longrightarrow> schema_ok (fst (generateToken db rnd n e rs))"
  by (auto simp: generateToken_def Let_def split: sum.splits prod.splits option.splits
      dest: insertTokenStatement_schema_ok insertRights_schema_ok)

lemma deleteToken_schema_ok:
  "schema_ok db \<Longrightarrow> schema_ok (fst (deleteToken db n))"
  by (auto simp: deleteToken_def deleteTokenFromNameStatement_def Let_def schema_ok_def
      distinct_map_filter filter_empty_conv)

lemma run_schema_ok: "schema_ok db \<Longrightarrow> schema_ok (run c db)"
  by (cases c) (simp_all add: generateToken_schema_ok deleteToken_schema_ok)

lemma reachable_schema_ok: "reachable db \<Longrightarrow> schema_ok db"
proof (induction rule: reachable.induct)
  case reachable_init
  show ?case by (simp add: schema_ok_def init_def)
next
  case (reachable_run db c)
  then show ?case by (simp add: run_schema_ok)
qed


subsection \<open>Looking a row up by a unique column\<close>

lemma filter_unique_row:
  "distinct (map f xs) \<Longrightarrow> x \<in> set xs \<Longrightarrow> filter (\<lambda>y. f y = f x) xs = [x]"
proof (induction xs)
  case Nil
  then show ?case by simp
next
  case (Cons a xs)
  show ?case
  proof (cases "a = x")
    case True
    with Cons.prems have "f x \<notin> f ` set xs" by simp
    then have "\<forall>y \<in> set xs. f y \<noteq> f x" by (metis imageI)
    then have "filter (\<lambda>y. f y = f x) xs = []" by (simp add: filter_empty_conv)
    with True show ?thesis by simp
  next
    case False
    with Cons.prems have "x \<in> set xs" "f a \<noteq> f x" by auto
    with Cons show ?thesis by simp
  qed
qed

lemma read_text_id: "CHR 0x00 \<notin> set s \<Longrightarrow> read_text s = s"
  by (auto simp: read_text_def takeWhile_eq_all_conv)

lemma read_integer_safe: "\<bar>v\<bar> < 2 ^ 53 \<Longrightarrow> read_integer v = Inr v"
  by (simp add: read_integer_def)

lemma stores_as_integer_safe: "\<bar>v\<bar> < 2 ^ 53 \<Longrightarrow> stores_as_integer v"
  unfolding stores_as_integer_def by (simp add: abs_less_iff)

lemma read_integer_unsafe: "2 ^ 53 \<le> \<bar>v\<bar> \<Longrightarrow> read_integer v = Inl RangeError"
  by (simp add: read_integer_def)

lemma getOptionalToken_row:
  "distinct (map tr_name (tokens_table db)) \<Longrightarrow> r \<in> set (tokens_table db) \<Longrightarrow>
   getOptionalToken db (tr_name r) =
     (case read_integer (tr_expiration r) of
        Inl e \<Rightarrow> Inl e
      | Inr v \<Rightarrow> Inr (Some (getTokenRights db (read_text (tr_name r), v))))"
  by (simp add: getOptionalToken_def selectTokenRowFromName_def filter_unique_row
      get_tokens_row_def read_tokens_row_def split: sum.splits)

lemma getOptionalToken_row_safe:
  assumes "distinct (map tr_name (tokens_table db))" and "r \<in> set (tokens_table db)"
    and "\<bar>tr_expiration r\<bar> < 2 ^ 53" and "CHR 0x00 \<notin> set (tr_name r)"
  shows "getOptionalToken db (tr_name r) =
     Inr (Some (getTokenRights db (tr_name r, tr_expiration r)))"
  using getOptionalToken_row [OF assms(1,2)] assms(3,4)
  by (simp add: read_integer_safe read_text_id)

lemma all_tokens_rows_safe:
  "\<forall>row \<in> set rows. \<bar>snd row\<bar> < 2 ^ 53 \<Longrightarrow>
   all_tokens_rows rows = Inr (map (\<lambda>row. (read_text (fst row), snd row)) rows)"
  by (induction rows) (auto simp: read_tokens_row_def read_integer_safe)

lemma listTokens_safe:
  assumes "\<forall>r \<in> set (tokens_table db). \<bar>tr_expiration r\<bar> < 2 ^ 53"
  shows "listTokens db =
     Inr (map (\<lambda>r. getTokenRights db (read_text (tr_name r), tr_expiration r)) (tokens_table db))"
proof -
  from assms have "\<forall>row \<in> set (selectAllTokensStatement db). \<bar>snd row\<bar> < 2 ^ 53"
    by (auto simp: selectAllTokensStatement_def)
  from all_tokens_rows_safe [OF this] show ?thesis
    by (simp add: listTokens_def selectAllTokensStatement_def comp_def)
qed

lemma set_selectRightsFromNameStatement:
  "set (selectRightsFromNameStatement db n) =
     rr_right ` {r \<in> set (rights_table db). rr_name r = n}"
  by (auto simp: selectRightsFromNameStatement_def)

lemma generateToken_Inr:
  assumes "generateToken db rnd n e rs = (db', Inr t)"
  shows "\<not> hasToken db n"
    and "tk_token t \<notin> set (map tr_token (tokens_table db))"
    and "t = \<lparr>tk_name = n, tk_expiration = (case e of None \<Rightarrow> 0 | Some x \<Rightarrow> x),
              tk_token = ''auth-'' @ uint8ArrayToHex (getRandomValues rnd 32), tk_rights = rs\<rparr>"
    and "tokens_table db' = tokens_table db @
           [\<lparr>tr_name = n, tr_expiration = tk_expiration t, tr_token = tk_token t\<rparr>]"
    and "rights_table db' = rights_table db @ map (\<lambda>r. \<lparr>rr_name = n, rr_right = r\<rparr>) rs"
    and "stores_as_integer (tk_expiration t)"
proof -
  let ?ex = "case e of None \<Rightarrow> 0 | Some x \<Rightarrow> x"
  let ?tok = "''auth-'' @ uint8ArrayToHex (getRandomValues rnd 32)"
  from assms show nh: "\<not> hasToken db n"
    by (auto simp: generateToken_def Let_def split: if_splits)
  with assms obtain db1 where db1: "insertTokenStatement db n ?ex ?tok = Inr db1"
    and ins: "insertRights db1 n rs = (db', None)"
    and t: "t = \<lparr>tk_name = n, tk_expiration = ?ex, tk_token = ?tok, tk_rights = rs\<rparr>"
    by (auto simp: generateToken_def Let_def split: sum.splits prod.splits option.splits)
  from t show "t = \<lparr>tk_name = n, tk_expiration = ?ex, tk_token = ?tok, tk_rights = rs\<rparr>" .
  from db1 t show "tk_token t \<notin> set (map tr_token (tokens_table db))"
    by (simp add: insertTokenStatement_Inr)
  from db1 t show "stores_as_integer (tk_expiration t)"
    by (simp add: insertTokenStatement_Inr)
  from db1 have tt: "tokens_table db1 = tokens_table db @ [\<lparr>tr_name = n, tr_expiration = ?ex, tr_token = ?tok\<rparr>]"
    and rt: "rights_table db1 = rights_table db"
    by (simp_all add: insertTokenStatement_Inr)
  from insertRights_result [OF ins] tt rt t
  show "tokens_table db' = tokens_table db @
           [\<lparr>tr_name = n, tr_expiration = tk_expiration t, tr_token = tk_token t\<rparr>]"
    and "rights_table db' = rights_table db @ map (\<lambda>r. \<lparr>rr_name = n, rr_right = r\<rparr>) rs"
    by auto
qed


lemma deleteToken_eq:
  "deleteToken db n =
     (\<lparr>tokens_table = filter (\<lambda>r. tr_name r \<noteq> n) (tokens_table db),
       rights_table = (if hasToken db n then filter (\<lambda>r. rr_name r \<noteq> n) (rights_table db)
                       else rights_table db)\<rparr>,
      hasToken db n)"
  by (auto simp: deleteToken_def deleteTokenFromNameStatement_def Let_def hasToken_iff
      filter_empty_conv)

lemma rights_row_mem:
  "\<lparr>rr_name = n, rr_right = x\<rparr> \<in> set rows \<longleftrightarrow>
     (\<exists>r \<in> set rows. rr_name r = n \<and> rr_right r = x)"
proof
  assume "\<lparr>rr_name = n, rr_right = x\<rparr> \<in> set rows"
  then show "\<exists>r \<in> set rows. rr_name r = n \<and> rr_right r = x"
    by (intro bexI [of _ "\<lparr>rr_name = n, rr_right = x\<rparr>"]) simp_all
next
  assume "\<exists>r \<in> set rows. rr_name r = n \<and> rr_right r = x"
  then obtain r where r: "r \<in> set rows" "rr_name r = n" "rr_right r = x" by blast
  then have "r = \<lparr>rr_name = n, rr_right = x\<rparr>" by simp
  with r show "\<lparr>rr_name = n, rr_right = x\<rparr> \<in> set rows" by simp
qed

lemma selectTokenFromTokenAndRightStatement_row:
  assumes "distinct (map tr_token (tokens_table db))" and "t \<in> set (tokens_table db)"
  shows "selectTokenFromTokenAndRightStatement db (tr_token t) right =
     map rr_name (filter (\<lambda>r. rr_name r = tr_name t \<and> rr_right r = right) (rights_table db))"
  using assms by (simp add: selectTokenFromTokenAndRightStatement_def filter_unique_row)

lemma selectTokenFromTokenAndRightStatement_unknown:
  assumes "secret \<notin> set (map tr_token (tokens_table db))"
  shows "selectTokenFromTokenAndRightStatement db secret right = []"
proof -
  from assms have "filter (\<lambda>r. tr_token r = secret) (tokens_table db) = []"
    by (auto simp: filter_empty_conv)
  then show ?thesis by (simp add: selectTokenFromTokenAndRightStatement_def)
qed

lemma verifyTokenRight_row:
  assumes "distinct (map tr_token (tokens_table db))" and "t \<in> set (tokens_table db)"
  shows "verifyTokenRight db (tr_token t) right \<longleftrightarrow>
     \<lparr>rr_name = tr_name t, rr_right = right\<rparr> \<in> set (rights_table db)"
proof -
  show ?thesis
    using assms
    by (simp add: verifyTokenRight_def selectTokenFromTokenAndRightStatement_row filter_empty_conv
        rights_row_mem)
qed

subsection \<open>The outcomes of \<open>generateToken\<close>\<close>

lemma insertRights_failure:
  "insertRights db n rs = (db2, Some err) \<Longrightarrow>
     err = SqliteConstraint \<and>
     (\<exists>k<length rs.
        rights_table db2 = rights_table db @ map (\<lambda>r. \<lparr>rr_name = n, rr_right = r\<rparr>) (take k rs) \<and>
        (\<lparr>rr_name = n, rr_right = rs ! k\<rparr> \<in> set (rights_table db2)
           \<or> n \<notin> set (map tr_name (tokens_table db))))"
proof (induction rs arbitrary: db)
  case Nil
  then show ?case by simp
next
  case (Cons r rs)
  show ?case
  proof (cases "insertRightStatement db n r")
    case (Inl e)
    with Cons.prems have eq: "db2 = db" "err = e" by simp_all
    from Inl have "e = SqliteConstraint"
      and "\<lparr>rr_name = n, rr_right = r\<rparr> \<in> set (rights_table db)
           \<or> n \<notin> set (map tr_name (tokens_table db))"
      by (auto simp: insertRightStatement_def split: if_splits)
    with eq show ?thesis by (intro conjI exI [of _ 0]) simp_all
  next
    case (Inr db1)
    then have db1: "tokens_table db1 = tokens_table db"
      "rights_table db1 = rights_table db @ [\<lparr>rr_name = n, rr_right = r\<rparr>]"
      by (simp_all add: insertRightStatement_Inr)
    from Inr Cons.prems have "insertRights db1 n rs = (db2, Some err)" by simp
    from Cons.IH [OF this] obtain k where k: "k < length rs" "err = SqliteConstraint"
      "rights_table db2 = rights_table db1 @ map (\<lambda>r. \<lparr>rr_name = n, rr_right = r\<rparr>) (take k rs)"
      "\<lparr>rr_name = n, rr_right = rs ! k\<rparr> \<in> set (rights_table db2)
           \<or> n \<notin> set (map tr_name (tokens_table db1))"
      by blast
    then show ?thesis using db1 by (intro conjI exI [of _ "Suc k"]) simp_all
  qed
qed

lemma generateToken_cases:
  fixes db rnd n e rs
  defines "row \<equiv> \<lparr>tr_name = n, tr_expiration = (case e of None \<Rightarrow> 0 | Some x \<Rightarrow> x),
                   tr_token = ''auth-'' @ uint8ArrayToHex (getRandomValues rnd 32)\<rparr>"
  obtains
    (name_exists) "hasToken db n"
      "generateToken db rnd n e rs = (db, Inl (TokenAlreadyExists n))"
  | (token_rejected) "\<not> hasToken db n"
      "tr_token row \<in> set (map tr_token (tokens_table db)) \<or> \<not> stores_as_integer (tr_expiration row)"
      "generateToken db rnd n e rs = (db, Inl SqliteConstraint)"
  | (right_rejected) k where "\<not> hasToken db n" "tr_token row \<notin> set (map tr_token (tokens_table db))"
      "k < length rs"
      "\<lparr>rr_name = n, rr_right = rs ! k\<rparr> \<in>
         set (rights_table db @ map (\<lambda>r. \<lparr>rr_name = n, rr_right = r\<rparr>) (take k rs))"
      "generateToken db rnd n e rs =
         (\<lparr>tokens_table = tokens_table db @ [row],
           rights_table = rights_table db @ map (\<lambda>r. \<lparr>rr_name = n, rr_right = r\<rparr>) (take k rs)\<rparr>,
          Inl SqliteConstraint)"
      "stores_as_integer (tr_expiration row)"
  | (created) "\<not> hasToken db n" "tr_token row \<notin> set (map tr_token (tokens_table db))"
      "generateToken db rnd n e rs =
         (\<lparr>tokens_table = tokens_table db @ [row],
           rights_table = rights_table db @ map (\<lambda>r. \<lparr>rr_name = n, rr_right = r\<rparr>) rs\<rparr>,
          Inr \<lparr>tk_name = n, tk_expiration = tr_expiration row, tk_token = tr_token row,
               tk_rights = rs\<rparr>)"
      "stores_as_integer (tr_expiration row)"
proof (cases "hasToken db n")
  case True
  then show ?thesis by (intro name_exists) (simp_all add: generateToken_def)
next
  case nh: False
  let ?ex = "case e of None \<Rightarrow> 0 | Some x \<Rightarrow> x"
  let ?tok = "''auth-'' @ uint8ArrayToHex (getRandomValues rnd 32)"
  show ?thesis
  proof (cases "insertTokenStatement db n ?ex ?tok")
    case (Inl e1)
    from nh have "n \<notin> set (map tr_name (tokens_table db))" by (simp add: hasToken_iff)
    with Inl have "e1 = SqliteConstraint"
      "?tok \<in> set (map tr_token (tokens_table db)) \<or> \<not> stores_as_integer ?ex"
      by (auto simp: insertTokenStatement_def split: if_splits)
    with nh Inl show ?thesis
      by (intro token_rejected) (simp_all add: generateToken_def row_def)
  next
    case (Inr db1)
    then have fresh: "?tok \<notin> set (map tr_token (tokens_table db))"
      and range: "stores_as_integer ?ex"
      and db1: "db1 = db\<lparr>tokens_table := tokens_table db @ [row]\<rparr>"
      by (simp_all add: insertTokenStatement_Inr row_def)
    obtain db2 res where i: "insertRights db1 n rs = (db2, res)"
      by (cases "insertRights db1 n rs")
    from insertRights_result [OF i] db1 have t2: "tokens_table db2 = tokens_table db @ [row]"
      by simp
    have gen: "generateToken db rnd n e rs =
        (db2, case res of Some err \<Rightarrow> Inl err
              | None \<Rightarrow> Inr \<lparr>tk_name = n, tk_expiration = ?ex, tk_token = ?tok, tk_rights = rs\<rparr>)"
      using nh Inr i by (simp add: generateToken_def Let_def split: option.splits)
    show ?thesis
    proof (cases res)
      case None
      with insertRights_result [OF i] db1
      have "rights_table db2 = rights_table db @ map (\<lambda>r. \<lparr>rr_name = n, rr_right = r\<rparr>) rs"
        by auto
      with t2 have "db2 = \<lparr>tokens_table = tokens_table db @ [row],
           rights_table = rights_table db @ map (\<lambda>r. \<lparr>rr_name = n, rr_right = r\<rparr>) rs\<rparr>"
        by simp
      with nh gen None fresh range show ?thesis
        by (intro created) (simp_all add: row_def)
    next
      case (Some err)
      from i Some insertRights_failure [of db1 n rs db2 err] db1
      obtain k where k: "k < length rs" "err = SqliteConstraint"
        "rights_table db2 = rights_table db @ map (\<lambda>r. \<lparr>rr_name = n, rr_right = r\<rparr>) (take k rs)"
        "\<lparr>rr_name = n, rr_right = rs ! k\<rparr> \<in> set (rights_table db2)"
        by (auto simp: row_def)
      with t2 have "db2 = \<lparr>tokens_table = tokens_table db @ [row],
           rights_table = rights_table db @ map (\<lambda>r. \<lparr>rr_name = n, rr_right = r\<rparr>) (take k rs)\<rparr>"
        by simp
      with nh gen Some fresh range k show ?thesis
        by (intro right_rejected [of k]) (simp_all add: row_def)
    qed
  qed
qed


lemma generateToken_tokens_kept:
  "r \<in> set (tokens_table db) \<Longrightarrow> r \<in> set (tokens_table (fst (generateToken db rnd n e rs)))"
  by (cases rule: generateToken_cases [where db = db and rnd = rnd and n = n and e = e and rs = rs])
    simp_all

lemma run_tokens_kept:
  assumes "r \<in> set (tokens_table db)" and "c \<noteq> DeleteToken (tr_name r)"
  shows "r \<in> set (tokens_table (run c db))"
proof (cases c)
  case (GenerateToken rnd n e rs)
  with assms(1) show ?thesis by (simp add: generateToken_tokens_kept)
next
  case (DeleteToken n)
  with assms show ?thesis by (simp add: deleteToken_eq)
qed (use assms(1) in simp_all)

lemma hasToken_expiration_update:
  "hasToken (db\<lparr>tokens_table := map (tr_expiration_update f) (tokens_table db)\<rparr>) n = hasToken db n"
proof -
  have "tr_name \<circ> tr_expiration_update f = tr_name"
    by (rule ext) simp
  then show ?thesis by (simp add: hasToken_iff)
qed

lemma verifyTokenValidity_row:
  assumes "distinct (map tr_token (tokens_table db))" and "r \<in> set (tokens_table db)"
  shows "verifyTokenValidity db nowMs (tr_token r) \<longleftrightarrow>
     tr_expiration r > nowMs div 1000 \<or> tr_expiration r = 0"
proof -
  let ?live = "\<lambda>x. tr_expiration x > nowMs div 1000 \<or> tr_expiration x = 0"
  have "filter (\<lambda>x. tr_token x = tr_token r \<and> ?live x) (tokens_table db) =
      filter ?live (filter (\<lambda>x. tr_token x = tr_token r) (tokens_table db))"
    by simp
  also from assms have "\<dots> = filter ?live [r]"
    by (simp only: filter_unique_row)
  finally show ?thesis
    by (simp add: verifyTokenValidity_def selectNotExpiredTokenFromTokenAndExpirationStatement_def)
qed

subsection \<open>Lookups do not read the secret\<close>

lemma redact_names:
  "map (\<lambda>r. (tr_name r, tr_expiration r)) (filter (\<lambda>r. tr_name r = n) (tokens_table (redact db)))
     = map (\<lambda>r. (tr_name r, tr_expiration r)) (filter (\<lambda>r. tr_name r = n) (tokens_table db))"
proof -
  have "map (\<lambda>r. (tr_name r, tr_expiration r))
          (filter (\<lambda>r. tr_name r = n) (map (\<lambda>r. r\<lparr>tr_token := []\<rparr>) xs))
      = map (\<lambda>r. (tr_name r, tr_expiration r)) (filter (\<lambda>r. tr_name r = n) xs)"
    for xs :: "AuthDatabaseTokensRow list"
    by (induction xs) simp_all
  then show ?thesis by (simp add: redact_def)
qed

lemma getTokenRights_redact: "getTokenRights (redact db) row = getTokenRights db row"
  by (cases row) (simp add: redact_def selectRightsFromNameStatement_def)

lemma selectTokenRowFromName_redact:
  "selectTokenRowFromName (redact db) n = selectTokenRowFromName db n"
  by (simp add: selectTokenRowFromName_def redact_names)

lemma selectAllTokensStatement_redact:
  "selectAllTokensStatement (redact db) = selectAllTokensStatement db"
  by (simp add: selectAllTokensStatement_def redact_def comp_def)

lemma getTokenRights_redact_fun: "getTokenRights (redact db) = getTokenRights db"
  by (rule ext) (rule getTokenRights_redact)

lemma getOptionalToken_redact: "getOptionalToken (redact db) n = getOptionalToken db n"
  by (simp add: getOptionalToken_def selectTokenRowFromName_redact getTokenRights_redact_fun
      split: sum.splits option.splits)

lemma getToken_redact: "getToken (redact db) n = getToken db n"
  by (simp add: getToken_def getOptionalToken_redact)

lemma listTokens_redact: "listTokens (redact db) = listTokens db"
  by (simp add: listTokens_def selectAllTokensStatement_redact getTokenRights_redact_fun
      split: sum.splits)

lemma generateToken_redact:
  assumes "generateToken db rnd n e rs = (db1, Inr t1)"
    and "generateToken db rnd2 n e rs = (db2, Inr t2)"
  shows "redact db2 = redact db1"
  using generateToken_Inr(3,4,5) [OF assms(1)] generateToken_Inr(3,4,5) [OF assms(2)]
  by (simp add: redact_def)

lemma selectRights_created:
  assumes "schema_ok db" and "\<not> hasToken db n"
  shows "set (selectRightsFromNameStatement
           (db'\<lparr>rights_table := rights_table db @ map (\<lambda>r. \<lparr>rr_name = n, rr_right = r\<rparr>) rs\<rparr>) n)
         = set rs"
proof -
  from assms have "\<forall>r \<in> set (rights_table db). rr_name r \<noteq> n"
    by (auto simp: schema_ok_def hasToken_iff)
  then have "{r \<in> set (rights_table db @ map (\<lambda>r. \<lparr>rr_name = n, rr_right = r\<rparr>) rs). rr_name r = n}
      = (\<lambda>r. \<lparr>rr_name = n, rr_right = r\<rparr>) ` set rs"
    by auto
  then show ?thesis
    by (simp add: set_selectRightsFromNameStatement image_image)
qed

lemma generateToken_getOptionalToken:
  assumes "schema_ok db" and "generateToken db rnd n e rs = (db', Inr t)"
    and "CHR 0x00 \<notin> set n" and "\<bar>case e of None \<Rightarrow> 0 | Some x \<Rightarrow> x\<bar> < 2 ^ 53"
  shows "\<exists>rs'. getOptionalToken db' n =
           Inr (Some \<lparr>st_name = n, st_expiration = (case e of None \<Rightarrow> 0 | Some x \<Rightarrow> x),
                      st_rights = rs'\<rparr>)
         \<and> set rs' = read_text ` set rs"
proof -
  let ?ex = "case e of None \<Rightarrow> 0 | Some x \<Rightarrow> x"
  let ?row = "\<lparr>tr_name = n, tr_expiration = ?ex, tr_token = tk_token t\<rparr>"
  note g = generateToken_Inr [OF assms(2)]
  from assms(1,2) have "schema_ok db'"
    using generateToken_schema_ok [of db rnd n e rs] by simp
  then have d: "distinct (map tr_name (tokens_table db'))" by (simp add: schema_ok_def)
  from g(3,4) have row: "?row \<in> set (tokens_table db')" by simp
  from getOptionalToken_row_safe [OF d row] assms(3,4)
  have get: "getOptionalToken db' n = Inr (Some (getTokenRights db' (n, ?ex)))" by simp
  have "db' = db'\<lparr>rights_table := rights_table db @ map (\<lambda>r. \<lparr>rr_name = n, rr_right = r\<rparr>) rs\<rparr>"
    using g(5) by simp
  with selectRights_created [OF assms(1) g(1), where db' = db' and rs = rs]
  have "set (selectRightsFromNameStatement db' n) = set rs" by simp
  then have "set (all_texts (selectRightsFromNameStatement db' n)) = read_text ` set rs"
    by (simp add: all_texts_def)
  with get show ?thesis by simp
qed

lemma length_getRandomValues: "length (getRandomValues rnd n) = n"
  by (simp add: getRandomValues_def)

lemma length_uint8ArrayToHex: "length (uint8ArrayToHex bytes) = 2 * length bytes"
  by (induction bytes) (simp_all add: uint8ArrayToHex_def)

lemma hexDigit_mem: "d < 16 \<Longrightarrow> hexDigit d \<in> set ''0123456789abcdef''"
  unfolding hexDigit_def by (rule nth_mem) simp

lemma set_uint8ArrayToHex:
  assumes "c \<in> set (uint8ArrayToHex bytes)"
  shows "c \<in> set ''0123456789abcdef''"
proof -
  have digits: "hexDigit (unat b div 16) \<in> set ''0123456789abcdef''
      \<and> hexDigit (unat b mod 16) \<in> set ''0123456789abcdef''" for b :: "8 word"
  proof -
    have "unat b < 256" using unsigned_less [of b, where ?'a = nat] by simp
    then have "unat b div 16 < 16" "unat b mod 16 < 16" by simp_all
    then show ?thesis by (simp only: hexDigit_mem)
  qed
  from assms obtain b :: "8 word"
    where "c = hexDigit (unat b div 16) \<or> c = hexDigit (unat b mod 16)"
    unfolding uint8ArrayToHex_def by fastforce
  with digits [of b] show ?thesis by (elim disjE) (simp_all only:)
qed

lemma is_secret_generated: "is_secret (''auth-'' @ uint8ArrayToHex (getRandomValues rnd 32))"
proof -
  have "length (uint8ArrayToHex (getRandomValues rnd 32)) = 64"
    by (simp add: length_uint8ArrayToHex length_getRandomValues)
  moreover have "\<forall>c \<in> set (uint8ArrayToHex (getRandomValues rnd 32)). c \<in> set ''0123456789abcdef''"
    using set_uint8ArrayToHex by blast
  ultimately show ?thesis unfolding is_secret_def by simp
qed

lemma generateToken_secrets:
  assumes "\<forall>r \<in> set (tokens_table db). is_secret (tr_token r)"
  shows "\<forall>r \<in> set (tokens_table (fst (generateToken db rnd n e rs))). is_secret (tr_token r)"
  using assms
  by (cases rule: generateToken_cases [where db = db and rnd = rnd and n = n and e = e and rs = rs])
    (simp_all add: is_secret_generated [simplified])

lemma run_secrets:
  assumes "\<forall>r \<in> set (tokens_table db). is_secret (tr_token r)"
  shows "\<forall>r \<in> set (tokens_table (run c db)). is_secret (tr_token r)"
proof (cases c)
  case (GenerateToken rnd n e rs)
  with generateToken_secrets [OF assms] show ?thesis by simp
next
  case (DeleteToken n)
  with assms show ?thesis by (simp add: deleteToken_eq)
qed (use assms in simp_all)

lemma reachable_secrets:
  "reachable db \<Longrightarrow> \<forall>r \<in> set (tokens_table db). is_secret (tr_token r)"
proof (induction rule: reachable.induct)
  case reachable_init
  show ?case by (simp add: init_def)
next
  case (reachable_run db c)
  from reachable_run.IH show ?case by (rule run_secrets)
qed


subsection \<open>When \<open>generateToken\<close> returns\<close>

lemma nth_not_in_take:
  assumes "distinct xs" and "k < length xs"
  shows "xs ! k \<notin> set (take k xs)"
proof -
  from assms(2) have "xs = take k xs @ xs ! k # drop (Suc k) xs"
    by (rule id_take_nth_drop)
  with assms(1) have "distinct (take k xs @ xs ! k # drop (Suc k) xs)" by simp
  then show ?thesis by (simp only: distinct_append distinct.simps) auto
qed

lemma generateToken_created:
  assumes "schema_ok db" and "\<not> hasToken db n"
    and "''auth-'' @ uint8ArrayToHex (getRandomValues rnd 32) \<notin> set (map tr_token (tokens_table db))"
    and "distinct rs"
    and "stores_as_integer (case e of None \<Rightarrow> 0 | Some x \<Rightarrow> x)"
  shows "generateToken db rnd n e rs =
     (\<lparr>tokens_table = tokens_table db @
          [\<lparr>tr_name = n, tr_expiration = (case e of None \<Rightarrow> 0 | Some x \<Rightarrow> x),
            tr_token = ''auth-'' @ uint8ArrayToHex (getRandomValues rnd 32)\<rparr>],
       rights_table = rights_table db @ map (\<lambda>r. \<lparr>rr_name = n, rr_right = r\<rparr>) rs\<rparr>,
      Inr \<lparr>tk_name = n, tk_expiration = (case e of None \<Rightarrow> 0 | Some x \<Rightarrow> x),
           tk_token = ''auth-'' @ uint8ArrayToHex (getRandomValues rnd 32), tk_rights = rs\<rparr>)"
proof (cases rule: generateToken_cases [where db = db and rnd = rnd and n = n and e = e and rs = rs])
  case name_exists
  with assms(2) show ?thesis by simp
next
  case token_rejected
  with assms(3,5) show ?thesis by simp
next
  case (right_rejected k)
  from assms(1,2) have "\<lparr>rr_name = n, rr_right = rs ! k\<rparr> \<notin> set (rights_table db)"
    by (force simp: schema_ok_def hasToken_iff)
  with right_rejected(4) have "rs ! k \<in> set (take k rs)" by auto
  with nth_not_in_take [OF assms(4) right_rejected(3)] show ?thesis by simp
next
  case created
  then show ?thesis by simp
qed

lemma generateToken_Inr_distinct:
  assumes "schema_ok db" and "generateToken db rnd n e rs = (db', Inr t)"
  shows "distinct rs"
proof -
  from assms have "schema_ok db'"
    using generateToken_schema_ok [of db rnd n e rs] by simp
  then have "distinct (rights_table db')" by (simp add: schema_ok_def)
  with generateToken_Inr(5) [OF assms(2)]
  have "distinct (map (\<lambda>r. \<lparr>rr_name = n, rr_right = r\<rparr>) rs)" by simp
  then show ?thesis by (simp add: distinct_map)
qed

subsection \<open>The secret and the random bytes\<close>

lemma nth_getRandomValues: "i < n \<Longrightarrow> getRandomValues rnd n ! i = rnd i"
  by (simp add: getRandomValues_def)

lemma getRandomValues_eq_iff:
  "getRandomValues rnd n = getRandomValues rnd2 n \<longleftrightarrow> (\<forall>i<n. rnd i = rnd2 i)"
  by (auto simp: getRandomValues_def)

lemma uint8ArrayToHex_Cons:
  "uint8ArrayToHex (b # bytes) =
     hexDigit (unat b div 16) # hexDigit (unat b mod 16) # uint8ArrayToHex bytes"
  by (simp add: uint8ArrayToHex_def)

lemma nth_uint8ArrayToHex:
  "i < length bytes \<Longrightarrow>
   uint8ArrayToHex bytes ! (2 * i) = hexDigit (unat (bytes ! i) div 16) \<and>
   uint8ArrayToHex bytes ! (2 * i + 1) = hexDigit (unat (bytes ! i) mod 16)"
proof (induction bytes arbitrary: i)
  case Nil
  then show ?case by simp
next
  case (Cons b bytes)
  show ?case
  proof (cases i)
    case 0
    then show ?thesis by (simp add: uint8ArrayToHex_Cons)
  next
    case (Suc j)
    with Cons.prems have "j < length bytes" by simp
    from Cons.IH [OF this] Suc show ?thesis by (simp add: uint8ArrayToHex_Cons)
  qed
qed

lemma hexDigit_inj:
  assumes "a < 16" and "b < 16" and "hexDigit a = hexDigit b"
  shows "a = b"
proof -
  have "distinct ''0123456789abcdef''" by simp
  moreover from assms(1,2) have "a < length ''0123456789abcdef''" "b < length ''0123456789abcdef''"
    by simp_all
  ultimately show ?thesis
    using assms(3) unfolding hexDigit_def by (simp only: nth_eq_iff_index_eq)
qed

lemma byte_hex_inj:
  fixes b c :: "8 word"
  assumes "hexDigit (unat b div 16) = hexDigit (unat c div 16)"
    and "hexDigit (unat b mod 16) = hexDigit (unat c mod 16)"
  shows "b = c"
proof -
  have lt: "unat x div 16 < 16" "unat x mod 16 < 16" for x :: "8 word"
  proof -
    have "unat x < 256" using unsigned_less [of x, where ?'a = nat] by simp
    then show "unat x div 16 < 16" "unat x mod 16 < 16" by simp_all
  qed
  from assms(1) have "unat b div 16 = unat c div 16"
    by (rule hexDigit_inj [OF lt(1) lt(1)])
  moreover from assms(2) have "unat b mod 16 = unat c mod 16"
    by (rule hexDigit_inj [OF lt(2) lt(2)])
  ultimately have "unat b = unat c"
    by (metis div_mult_mod_eq)
  then show ?thesis by (simp add: word_unat_eq_iff)
qed

lemma uint8ArrayToHex_inj:
  "length bs = length cs \<Longrightarrow> uint8ArrayToHex bs = uint8ArrayToHex cs \<Longrightarrow> bs = cs"
proof (induction bs cs rule: list_induct2)
  case Nil
  show ?case by simp
next
  case (Cons b bs c cs)
  from Cons.prems have "hexDigit (unat b div 16) = hexDigit (unat c div 16)"
    "hexDigit (unat b mod 16) = hexDigit (unat c mod 16)"
    "uint8ArrayToHex bs = uint8ArrayToHex cs"
    by (simp_all add: uint8ArrayToHex_Cons)
  with Cons.IH byte_hex_inj show ?case by simp
qed

lemma secret_eq_iff:
  "''auth-'' @ uint8ArrayToHex (getRandomValues rnd2 32)
     = ''auth-'' @ uint8ArrayToHex (getRandomValues rnd 32)
   \<longleftrightarrow> (\<forall>i<32. rnd2 i = rnd i)"
proof -
  have "uint8ArrayToHex (getRandomValues rnd2 32) = uint8ArrayToHex (getRandomValues rnd 32)
      \<longleftrightarrow> getRandomValues rnd2 32 = getRandomValues rnd 32"
    using uint8ArrayToHex_inj [of "getRandomValues rnd2 32" "getRandomValues rnd 32"]
    by (auto simp: length_getRandomValues)
  then show ?thesis by (simp add: getRandomValues_eq_iff)
qed

lemma secret_digits:
  assumes "i < 32"
  shows "(''auth-'' @ uint8ArrayToHex (getRandomValues rnd 32)) ! (5 + 2 * i)
           = hexDigit (unat (rnd i) div 16)
       \<and> (''auth-'' @ uint8ArrayToHex (getRandomValues rnd 32)) ! (5 + 2 * i + 1)
           = hexDigit (unat (rnd i) mod 16)"
proof -
  from assms have "i < length (getRandomValues rnd 32)" by (simp add: length_getRandomValues)
  from nth_uint8ArrayToHex [OF this] assms show ?thesis
    by (simp add: nth_append nth_getRandomValues)
qed

subsection \<open>Reads that do not give back what was stored\<close>

text \<open>
  Two calls on a new database, with a random source whose byte at index \<open>i\<close> is
  \<open>i\<close>. A token created with the expiration \<open>2^53\<close> is stored, and reading it
  raises. A token created under the name \<open>a\<close>, NUL, \<open>b\<close> is stored under that name;
  its row is read back with the name \<open>a\<close>, and the rights are looked up under \<open>a\<close>.
\<close>

lemma getToken_unsafe_expiration:
  "getToken (fst (generateToken init of_nat ''t'' (Some 9007199254740992) [''r''])) ''t''
     = Inl RangeError"
  by code_simp

lemma getToken_nul_name:
  "getToken (fst (generateToken init of_nat [CHR ''a'', CHR 0x00, CHR ''b''] None [''r'']))
       [CHR ''a'', CHR 0x00, CHR ''b'']
     = Inr \<lparr>st_name = ''a'', st_expiration = 0, st_rights = []\<rparr>"
  by code_simp

section \<open>The claims\<close>

subsection \<open>C1: a failed creation and what it leaves\<close>

text \<open>
  C1 says that a failed creation leaves nothing behind. \<open>generateToken\<close> runs the
  insert of the token row and the inserts of the rights rows as separate statements, with
  no transaction around them. On a new database, with a random source whose byte at
  index \<open>i\<close> is \<open>i\<close>, creating the token \<open>t\<close> with the rights \<open>a, b, a\<close> fails at
  the third right (the pair \<open>(t, a)\<close> is already a row), and the token row and the
  first two rights rows stay in the database.
\<close>

theorem generateToken_atomic_counterexample:
  "generateToken init of_nat ''t'' None [''a'', ''b'', ''a''] =
     (\<lparr>tokens_table = [\<lparr>tr_name = ''t'', tr_expiration = 0,
          tr_token = ''auth-000102030405060708090a0b0c0d0e0f101112131415161718191a1b1c1d1e1f''\<rparr>],
       rights_table = [\<lparr>rr_name = ''t'', rr_right = ''a''\<rparr>, \<lparr>rr_name = ''t'', rr_right = ''b''\<rparr>]\<rparr>,
      Inl SqliteConstraint)
   \<and> fst (generateToken init of_nat ''t'' None [''a'', ''b'', ''a'']) \<noteq> init
   \<and> hasToken (fst (generateToken init of_nat ''t'' None [''a'', ''b'', ''a''])) ''t''"
  by code_simp

text \<open>
  C1, as the code has it. When \<open>generateToken\<close> fails on a database that satisfies
  the schema, the database is unchanged only if the failure came from the name check or
  from the insert of the token row (the secret is already stored, or the expiration is
  not an integer of 64 bits). When the failure
  comes from the insert of a rights row, the error is the constraint failure, the right
  that failed occurs earlier in the list, and the database keeps the new token row and
  the rights rows inserted before the failing one.
\<close>

theorem generateToken_failure_state:
  assumes "schema_ok db" and "generateToken db rnd name e rs = (db', Inl err)"
  shows "(hasToken db name
            \<or> ''auth-'' @ uint8ArrayToHex (getRandomValues rnd 32) \<in> set (map tr_token (tokens_table db))
            \<or> \<not> stores_as_integer (case e of None \<Rightarrow> 0 | Some x \<Rightarrow> x)
          \<longrightarrow> db' = db)
       \<and> (\<not> hasToken db name
            \<and> ''auth-'' @ uint8ArrayToHex (getRandomValues rnd 32) \<notin> set (map tr_token (tokens_table db))
            \<and> stores_as_integer (case e of None \<Rightarrow> 0 | Some x \<Rightarrow> x)
          \<longrightarrow> err = SqliteConstraint \<and>
              (\<exists>k<length rs. rs ! k \<in> set (take k rs) \<and>
                 tokens_table db' = tokens_table db @
                   [\<lparr>tr_name = name, tr_expiration = (case e of None \<Rightarrow> 0 | Some x \<Rightarrow> x),
                     tr_token = ''auth-'' @ uint8ArrayToHex (getRandomValues rnd 32)\<rparr>] \<and>
                 rights_table db' = rights_table db @
                   map (\<lambda>r. \<lparr>rr_name = name, rr_right = r\<rparr>) (take k rs)))"
proof (cases rule: generateToken_cases [where db = db and rnd = rnd and n = name and e = e and rs = rs])
  case name_exists
  with assms(2) show ?thesis by simp
next
  case token_rejected
  with assms(2) show ?thesis by simp
next
  case (right_rejected k)
  from assms(1) right_rejected(1) have "\<lparr>rr_name = name, rr_right = rs ! k\<rparr> \<notin> set (rights_table db)"
    by (force simp: schema_ok_def hasToken_iff)
  with right_rejected(4) have dup: "rs ! k \<in> set (take k rs)" by auto
  from right_rejected(5) assms(2) have "err = SqliteConstraint"
    and "db' = \<lparr>tokens_table = tokens_table db @
                   [\<lparr>tr_name = name, tr_expiration = (case e of None \<Rightarrow> 0 | Some x \<Rightarrow> x),
                     tr_token = ''auth-'' @ uint8ArrayToHex (getRandomValues rnd 32)\<rparr>],
                rights_table = rights_table db @
                   map (\<lambda>r. \<lparr>rr_name = name, rr_right = r\<rparr>) (take k rs)\<rparr>"
    by simp_all
  with right_rejected(1,2,3,6) dup show ?thesis
    by (intro conjI impI exI [of _ k]) simp_all
next
  case created
  with assms(2) show ?thesis by simp
qed

theorem generateToken_failure_state_witness:
  "schema_ok init
   \<and> generateToken init of_nat ''t'' None [''a'', ''b'', ''a''] =
       (\<lparr>tokens_table = [\<lparr>tr_name = ''t'', tr_expiration = 0,
            tr_token = ''auth-000102030405060708090a0b0c0d0e0f101112131415161718191a1b1c1d1e1f''\<rparr>],
         rights_table = [\<lparr>rr_name = ''t'', rr_right = ''a''\<rparr>, \<lparr>rr_name = ''t'', rr_right = ''b''\<rparr>]\<rparr>,
        Inl SqliteConstraint)
   \<and> (\<exists>k<length [''a'', ''b'', ''a'']. [''a'', ''b'', ''a''] ! k \<in> set (take k [''a'', ''b'', ''a'']))"
proof -
  have ok: "schema_ok init" by (simp add: schema_ok_def init_def)
  have g: "generateToken init of_nat ''t'' None [''a'', ''b'', ''a''] =
       (\<lparr>tokens_table = [\<lparr>tr_name = ''t'', tr_expiration = 0,
            tr_token = ''auth-000102030405060708090a0b0c0d0e0f101112131415161718191a1b1c1d1e1f''\<rparr>],
         rights_table = [\<lparr>rr_name = ''t'', rr_right = ''a''\<rparr>, \<lparr>rr_name = ''t'', rr_right = ''b''\<rparr>]\<rparr>,
        Inl SqliteConstraint)"
    by code_simp
  have nh: "\<not> hasToken init ''t''" by (simp add: hasToken_iff init_def)
  have fresh: "''auth-'' @ uint8ArrayToHex (getRandomValues of_nat 32) \<notin> set (map tr_token (tokens_table init))"
    by (simp add: init_def)
  have range: "stores_as_integer (case None of None \<Rightarrow> 0 | Some x \<Rightarrow> x)"
    by (simp add: stores_as_integer_def)
  from generateToken_failure_state [OF ok g] nh fresh range ok g show ?thesis by blast
qed

subsection \<open>C2: validity of a secret\<close>

text \<open>
  C2. For every database, clock value and secret, \<open>verifyTokenValidity\<close> is true
  exactly when some token row has that secret and an expiration that is 0 or strictly
  greater than the current Unix time in seconds, \<open>Math.floor(Date.now() / 1000)\<close>.
  Where secrets are unique (the schema), a row with that secret whose expiration is
  non-zero and not in the future makes the result false, and a secret that no row has
  gives false.
\<close>

theorem verifyTokenValidity_iff:
  "(verifyTokenValidity db nowMs secret \<longleftrightarrow>
      (\<exists>r \<in> set (tokens_table db). tr_token r = secret \<and>
         (tr_expiration r = 0 \<or> tr_expiration r > nowMs div 1000)))
   \<and> (schema_ok db \<longrightarrow>
        (\<forall>r \<in> set (tokens_table db). tr_token r = secret \<and> tr_expiration r \<noteq> 0 \<and>
            tr_expiration r \<le> nowMs div 1000 \<longrightarrow> \<not> verifyTokenValidity db nowMs secret))
   \<and> (secret \<notin> set (map tr_token (tokens_table db)) \<longrightarrow> \<not> verifyTokenValidity db nowMs secret)"
proof -
  have iff: "verifyTokenValidity db nowMs secret \<longleftrightarrow>
      (\<exists>r \<in> set (tokens_table db). tr_token r = secret \<and>
         (tr_expiration r = 0 \<or> tr_expiration r > nowMs div 1000))"
    by (auto simp: verifyTokenValidity_def selectNotExpiredTokenFromTokenAndExpirationStatement_def
        filter_empty_conv)
  have expired: "\<not> verifyTokenValidity db nowMs secret"
    if ok: "schema_ok db" and r: "r \<in> set (tokens_table db)" "tr_token r = secret"
      "tr_expiration r \<noteq> 0" "tr_expiration r \<le> nowMs div 1000" for r
  proof
    assume "verifyTokenValidity db nowMs secret"
    with iff obtain r' where r': "r' \<in> set (tokens_table db)" "tr_token r' = secret"
      "tr_expiration r' = 0 \<or> tr_expiration r' > nowMs div 1000" by blast
    from ok have "inj_on tr_token (set (tokens_table db))"
      by (simp add: schema_ok_def distinct_map)
    with r r' have "r' = r" by (auto dest: inj_onD)
    with r r' show False by auto
  qed
  have unknown: "\<not> verifyTokenValidity db nowMs secret"
    if "secret \<notin> set (map tr_token (tokens_table db))"
    using that iff by auto
  from iff expired unknown show ?thesis by blast
qed


theorem verifyTokenValidity_iff_witness:
  "schema_ok \<lparr>tokens_table =
       [\<lparr>tr_name = ''a'', tr_expiration = 0, tr_token = ''s1''\<rparr>,
        \<lparr>tr_name = ''b'', tr_expiration = 1700000000, tr_token = ''s2''\<rparr>,
        \<lparr>tr_name = ''c'', tr_expiration = 1700000001, tr_token = ''s3''\<rparr>],
     rights_table = []\<rparr>
   \<and> \<not> verifyTokenValidity \<lparr>tokens_table =
       [\<lparr>tr_name = ''a'', tr_expiration = 0, tr_token = ''s1''\<rparr>,
        \<lparr>tr_name = ''b'', tr_expiration = 1700000000, tr_token = ''s2''\<rparr>,
        \<lparr>tr_name = ''c'', tr_expiration = 1700000001, tr_token = ''s3''\<rparr>],
     rights_table = []\<rparr> 1700000000999 ''s2''"
  using verifyTokenValidity_iff [of "\<lparr>tokens_table =
       [\<lparr>tr_name = ''a'', tr_expiration = 0, tr_token = ''s1''\<rparr>,
        \<lparr>tr_name = ''b'', tr_expiration = 1700000000, tr_token = ''s2''\<rparr>,
        \<lparr>tr_name = ''c'', tr_expiration = 1700000001, tr_token = ''s3''\<rparr>],
     rights_table = []\<rparr>" 1700000000999 "''s2''"]
  by (simp add: schema_ok_def)

subsection \<open>C3: the rights of a secret\<close>

text \<open>
  C3. For every database that satisfies the schema, every secret and every right,
  \<open>verifyTokenRight\<close> is true exactly when some token row has that secret and the
  rights stored for that token contain the right, as an equal string. It is false for a right
  that was not granted and false for a secret that no row has. The result does not
  depend on any expiration: it is the same after the expirations of all rows are changed
  in any way, so an expired token that holds the right still gives true.
\<close>

theorem verifyTokenRight_iff:
  assumes "schema_ok db"
  shows "(verifyTokenRight db secret right \<longleftrightarrow>
           (\<exists>t \<in> set (tokens_table db). tr_token t = secret \<and>
              \<lparr>rr_name = tr_name t, rr_right = right\<rparr> \<in> set (rights_table db)))
       \<and> (secret \<notin> set (map tr_token (tokens_table db)) \<longrightarrow> \<not> verifyTokenRight db secret right)
       \<and> verifyTokenRight (db\<lparr>tokens_table := map (tr_expiration_update f) (tokens_table db)\<rparr>)
            secret right = verifyTokenRight db secret right"
proof -
  from assms have d: "distinct (map tr_token (tokens_table db))"
    by (simp add: schema_ok_def)
  have unknown: "\<not> verifyTokenRight db secret right"
    if "secret \<notin> set (map tr_token (tokens_table db))"
    using that by (simp add: verifyTokenRight_def selectTokenFromTokenAndRightStatement_unknown)
  have iff: "verifyTokenRight db secret right \<longleftrightarrow>
           (\<exists>t \<in> set (tokens_table db). tr_token t = secret \<and>
              \<lparr>rr_name = tr_name t, rr_right = right\<rparr> \<in> set (rights_table db))"
  proof (cases "secret \<in> set (map tr_token (tokens_table db))")
    case True
    then obtain t where t: "t \<in> set (tokens_table db)" "tr_token t = secret" by auto
    from d have "inj_on tr_token (set (tokens_table db))" by (simp add: distinct_map)
    with t have only: "t' = t" if "t' \<in> set (tokens_table db)" "tr_token t' = secret" for t'
      using that by (auto dest: inj_onD)
    from verifyTokenRight_row [OF d t(1), of right] t
    have "verifyTokenRight db secret right \<longleftrightarrow>
        \<lparr>rr_name = tr_name t, rr_right = right\<rparr> \<in> set (rights_table db)"
      by simp
    with t only show ?thesis by blast
  next
    case False
    with unknown show ?thesis by auto
  qed
  have "map tr_name (filter (\<lambda>r. tr_token r = secret) (map (tr_expiration_update f) xs)) =
      map tr_name (filter (\<lambda>r. tr_token r = secret) xs)" for xs :: "AuthDatabaseTokensRow list"
    by (induction xs) simp_all
  then have "selectTokenFromTokenAndRightStatement
       (db\<lparr>tokens_table := map (tr_expiration_update f) (tokens_table db)\<rparr>) secret right =
     selectTokenFromTokenAndRightStatement db secret right"
    by (simp add: selectTokenFromTokenAndRightStatement_def cong: option.case_cong)
  then have indep: "verifyTokenRight (db\<lparr>tokens_table := map (tr_expiration_update f) (tokens_table db)\<rparr>)
            secret right = verifyTokenRight db secret right"
    by (simp add: verifyTokenRight_def)
  from iff unknown indep show ?thesis by blast
qed

theorem verifyTokenRight_iff_witness:
  "schema_ok (fst (generateToken init of_nat ''test'' (Some 1) [''read'']))
   \<and> verifyTokenRight (fst (generateToken init of_nat ''test'' (Some 1) [''read'']))
        ''auth-000102030405060708090a0b0c0d0e0f101112131415161718191a1b1c1d1e1f'' ''read''
   \<and> \<not> verifyTokenValidity (fst (generateToken init of_nat ''test'' (Some 1) [''read''])) 5000
        ''auth-000102030405060708090a0b0c0d0e0f101112131415161718191a1b1c1d1e1f''
   \<and> \<not> verifyTokenRight (fst (generateToken init of_nat ''test'' (Some 1) [''read'']))
        ''auth-000102030405060708090a0b0c0d0e0f101112131415161718191a1b1c1d1e1f'' ''write''
   \<and> \<not> verifyTokenRight (fst (generateToken init of_nat ''test'' (Some 1) [''read'']))
        ''invalid'' ''read''"
proof -
  have db: "fst (generateToken init of_nat ''test'' (Some 1) [''read'']) =
     \<lparr>tokens_table = [\<lparr>tr_name = ''test'', tr_expiration = 1,
         tr_token = ''auth-000102030405060708090a0b0c0d0e0f101112131415161718191a1b1c1d1e1f''\<rparr>],
      rights_table = [\<lparr>rr_name = ''test'', rr_right = ''read''\<rparr>]\<rparr>"
    by code_simp
  have ok: "schema_ok (fst (generateToken init of_nat ''test'' (Some 1) [''read'']))"
    unfolding db by (simp add: schema_ok_def)
  have v: "\<not> verifyTokenValidity (fst (generateToken init of_nat ''test'' (Some 1) [''read''])) 5000
        ''auth-000102030405060708090a0b0c0d0e0f101112131415161718191a1b1c1d1e1f''"
    unfolding db by code_simp
  show ?thesis
    using ok v
      verifyTokenRight_iff [OF ok, of
        "''auth-000102030405060708090a0b0c0d0e0f101112131415161718191a1b1c1d1e1f''" "''read''"]
      verifyTokenRight_iff [OF ok, of
        "''auth-000102030405060708090a0b0c0d0e0f101112131415161718191a1b1c1d1e1f''" "''write''"]
      verifyTokenRight_iff [OF ok, of "''invalid''" "''read''"]
    unfolding db
    by simp
qed

subsection \<open>C4: a duplicate name is rejected before any write\<close>

text \<open>
  C4. In every state in which a row with the given name exists, \<open>generateToken\<close> with
  that name raises the "already exists" error (the spec's \<open>DuplicateNameError\<close>) at
  its first statement, before any insert: the database it leaves is the one it found,
  and \<open>listTokens\<close> gives the same sequence before and after the failed call.
\<close>

theorem generateToken_duplicate_name:
  assumes "hasToken db name"
  shows "generateToken db rnd name expiration_opt rs = (db, Inl (TokenAlreadyExists name))
       \<and> listTokens (fst (generateToken db rnd name expiration_opt rs)) = listTokens db"
  using assms by (simp add: generateToken_def)

theorem generateToken_duplicate_name_witness:
  "hasToken (fst (generateToken init of_nat ''test'' None [''read''])) ''test''
   \<and> generateToken (fst (generateToken init of_nat ''test'' None [''read''])) of_nat ''test'' None [''read'']
       = (fst (generateToken init of_nat ''test'' None [''read'']), Inl (TokenAlreadyExists ''test''))
   \<and> listTokens (fst (generateToken init of_nat ''test'' None [''read'']))
       = Inr [\<lparr>st_name = ''test'', st_expiration = 0, st_rights = [''read'']\<rparr>]"
proof -
  have h: "hasToken (fst (generateToken init of_nat ''test'' None [''read''])) ''test''"
    by code_simp
  have l: "listTokens (fst (generateToken init of_nat ''test'' None [''read'']))
       = Inr [\<lparr>st_name = ''test'', st_expiration = 0, st_rights = [''read'']\<rparr>]"
    by code_simp
  from generateToken_duplicate_name [OF h, of of_nat None "[''read'']"] h l show ?thesis
    by simp
qed

subsection \<open>C5: create, then look up\<close>

text \<open>
  C5 says that every valid creation is followed by a \<open>getToken\<close> that returns the rights
  given. A rights list may repeat a string: on a new database, creating the token \<open>t\<close>
  with the rights \<open>a, b, a, c\<close> raises at the third right, and \<open>getToken\<close> then
  returns \<open>t\<close> with the rights \<open>a, b\<close> only. A token created with the expiration
  \<open>2^53\<close> is stored, and \<open>getToken\<close> raises when it reads it. A token created under
  the name \<open>a\<close>, NUL, \<open>b\<close> is returned by \<open>getToken\<close> under the name \<open>a\<close> and
  without its right.
\<close>

theorem generateToken_then_getToken_counterexample:
  "generateToken init of_nat ''t'' None [''a'', ''b'', ''a'', ''c''] =
     (\<lparr>tokens_table = [\<lparr>tr_name = ''t'', tr_expiration = 0,
          tr_token = ''auth-000102030405060708090a0b0c0d0e0f101112131415161718191a1b1c1d1e1f''\<rparr>],
       rights_table = [\<lparr>rr_name = ''t'', rr_right = ''a''\<rparr>, \<lparr>rr_name = ''t'', rr_right = ''b''\<rparr>]\<rparr>,
      Inl SqliteConstraint)
   \<and> getToken (fst (generateToken init of_nat ''t'' None [''a'', ''b'', ''a'', ''c''])) ''t''
       = Inr \<lparr>st_name = ''t'', st_expiration = 0, st_rights = [''a'', ''b'']\<rparr>
   \<and> ''c'' \<notin> set [''a'', ''b'']
   \<and> getToken (fst (generateToken init of_nat ''u'' (Some 9007199254740992) [''r''])) ''u''
       = Inl RangeError
   \<and> getToken (fst (generateToken init of_nat [CHR ''a'', CHR 0x00, CHR ''b''] None [''r'']))
         [CHR ''a'', CHR 0x00, CHR ''b'']
       = Inr \<lparr>st_name = ''a'', st_expiration = 0, st_rights = []\<rparr>"
  by code_simp

text \<open>
  C5, as the code has it. On a database that satisfies the schema, \<open>generateToken\<close>
  returns a record exactly when the name is not present, no right is repeated in the
  list, the expiration is an integer of 64 bits and the generated secret is not yet
  stored. When moreover neither the name nor a right contains a NUL character and the
  magnitude of the expiration is below \<open>2^53\<close>, \<open>getToken\<close> of that name returns the
  name, the expiration (0 when none was given) and a list of rights with the same set of
  elements as the rights given. What \<open>getToken\<close>, \<open>getOptionalToken\<close> and
  \<open>listTokens\<close> return after a creation is the same for every secret the call could
  have generated: their results carry nothing of the secret.
\<close>

theorem generateToken_then_getToken:
  assumes "schema_ok db"
  shows "((\<exists>db' t. generateToken db rnd name e rs = (db', Inr t)) \<longleftrightarrow>
            \<not> hasToken db name \<and> distinct rs \<and>
            stores_as_integer (case e of None \<Rightarrow> 0 | Some x \<Rightarrow> x) \<and>
            ''auth-'' @ uint8ArrayToHex (getRandomValues rnd 32)
              \<notin> set (map tr_token (tokens_table db)))
       \<and> (\<not> hasToken db name \<and> distinct rs \<and>
            ''auth-'' @ uint8ArrayToHex (getRandomValues rnd 32)
              \<notin> set (map tr_token (tokens_table db)) \<and>
            CHR 0x00 \<notin> set name \<and> (\<forall>r \<in> set rs. CHR 0x00 \<notin> set r) \<and>
            \<bar>case e of None \<Rightarrow> 0 | Some x \<Rightarrow> x\<bar> < 2 ^ 53 \<longrightarrow>
            (\<exists>db' t rs'. generateToken db rnd name e rs = (db', Inr t) \<and>
               getToken db' name =
                 Inr \<lparr>st_name = name, st_expiration = (case e of None \<Rightarrow> 0 | Some x \<Rightarrow> x),
                      st_rights = rs'\<rparr> \<and>
               set rs' = set rs))
       \<and> (\<forall>db' t rnd2 db2 t2.
            generateToken db rnd name e rs = (db', Inr t) \<and>
            generateToken db rnd2 name e rs = (db2, Inr t2) \<longrightarrow>
              (\<forall>n. getToken db2 n = getToken db' n
                 \<and> getOptionalToken db2 n = getOptionalToken db' n)
              \<and> listTokens db2 = listTokens db')"
proof -
  let ?ex = "case e of None \<Rightarrow> 0 | Some x \<Rightarrow> x"
  let ?tok = "''auth-'' @ uint8ArrayToHex (getRandomValues rnd 32)"
  have returns: "(\<exists>db' t. generateToken db rnd name e rs = (db', Inr t)) \<longleftrightarrow>
            \<not> hasToken db name \<and> distinct rs \<and> stores_as_integer ?ex \<and>
            ?tok \<notin> set (map tr_token (tokens_table db))"
  proof
    assume "\<exists>db' t. generateToken db rnd name e rs = (db', Inr t)"
    then obtain db' t where g: "generateToken db rnd name e rs = (db', Inr t)" by blast
    from generateToken_Inr(1,2,3,6) [OF g] generateToken_Inr_distinct [OF assms g]
    show "\<not> hasToken db name \<and> distinct rs \<and> stores_as_integer ?ex \<and>
        ?tok \<notin> set (map tr_token (tokens_table db))"
      by simp
  next
    assume "\<not> hasToken db name \<and> distinct rs \<and> stores_as_integer ?ex \<and>
        ?tok \<notin> set (map tr_token (tokens_table db))"
    then show "\<exists>db' t. generateToken db rnd name e rs = (db', Inr t)"
      using generateToken_created [OF assms, of name rnd rs e] by blast
  qed
  have lookup: "\<exists>db' t rs'. generateToken db rnd name e rs = (db', Inr t) \<and>
               getToken db' name = Inr \<lparr>st_name = name, st_expiration = ?ex, st_rights = rs'\<rparr> \<and>
               set rs' = set rs"
    if h: "\<not> hasToken db name" "distinct rs" "?tok \<notin> set (map tr_token (tokens_table db))"
      and nul: "CHR 0x00 \<notin> set name" "\<forall>r \<in> set rs. CHR 0x00 \<notin> set r"
      and safe: "\<bar>?ex\<bar> < 2 ^ 53"
  proof -
    from safe have "stores_as_integer ?ex" by (rule stores_as_integer_safe)
    with returns h obtain db' t where g: "generateToken db rnd name e rs = (db', Inr t)"
      by blast
    from generateToken_getOptionalToken [OF assms g nul(1) safe]
    obtain rs' where get: "getOptionalToken db' name =
        Inr (Some \<lparr>st_name = name, st_expiration = ?ex, st_rights = rs'\<rparr>)"
      and rs': "set rs' = read_text ` set rs"
      by blast
    from nul(2) have "read_text ` set rs = set rs"
      by (force simp: read_text_id)
    with rs' have "set rs' = set rs" by simp
    moreover from get have "getToken db' name =
        Inr \<lparr>st_name = name, st_expiration = ?ex, st_rights = rs'\<rparr>"
      by (simp add: getToken_def)
    ultimately show ?thesis using g by blast
  qed
  have hidden: "(\<forall>n. getToken db2 n = getToken db' n
                \<and> getOptionalToken db2 n = getOptionalToken db' n)
             \<and> listTokens db2 = listTokens db'"
    if g: "generateToken db rnd name e rs = (db', Inr t)"
      and g2: "generateToken db rnd2 name e rs = (db2, Inr t2)" for db' t rnd2 db2 t2
  proof -
    from g g2 have r: "redact db2 = redact db'" by (rule generateToken_redact)
    have "getToken db2 n = getToken db' n" for n
      using getToken_redact [of db2 n] getToken_redact [of db' n] r by simp
    moreover have "getOptionalToken db2 n = getOptionalToken db' n" for n
      using getOptionalToken_redact [of db2 n] getOptionalToken_redact [of db' n] r by simp
    moreover have "listTokens db2 = listTokens db'"
      using listTokens_redact [of db2] listTokens_redact [of db'] r by simp
    ultimately show ?thesis by simp
  qed
  show ?thesis
  proof (intro conjI)
    show "(\<exists>db' t. generateToken db rnd name e rs = (db', Inr t)) \<longleftrightarrow>
            \<not> hasToken db name \<and> distinct rs \<and> stores_as_integer ?ex \<and>
            ?tok \<notin> set (map tr_token (tokens_table db))"
      by (rule returns)
    show "\<not> hasToken db name \<and> distinct rs \<and> ?tok \<notin> set (map tr_token (tokens_table db)) \<and>
            CHR 0x00 \<notin> set name \<and> (\<forall>r \<in> set rs. CHR 0x00 \<notin> set r) \<and> \<bar>?ex\<bar> < 2 ^ 53 \<longrightarrow>
            (\<exists>db' t rs'. generateToken db rnd name e rs = (db', Inr t) \<and>
               getToken db' name =
                 Inr \<lparr>st_name = name, st_expiration = ?ex, st_rights = rs'\<rparr> \<and>
               set rs' = set rs)"
      using lookup by blast
    show "\<forall>db' t rnd2 db2 t2.
            generateToken db rnd name e rs = (db', Inr t) \<and>
            generateToken db rnd2 name e rs = (db2, Inr t2) \<longrightarrow>
              (\<forall>n. getToken db2 n = getToken db' n
                 \<and> getOptionalToken db2 n = getOptionalToken db' n)
              \<and> listTokens db2 = listTokens db'"
      using hidden by blast
  qed
qed

theorem generateToken_then_getToken_witness:
  "schema_ok init \<and> \<not> hasToken init ''svc1'' \<and> distinct [''write'', ''read'']
   \<and> (\<exists>db' t rs'. generateToken init of_nat ''svc1'' None [''write'', ''read''] = (db', Inr t) \<and>
         getToken db' ''svc1'' = Inr \<lparr>st_name = ''svc1'', st_expiration = 0, st_rights = rs'\<rparr> \<and>
         set rs' = set [''write'', ''read''])"
proof -
  have ok: "schema_ok init" by (simp add: schema_ok_def init_def)
  have nh: "\<not> hasToken init ''svc1''" by (simp add: hasToken_iff init_def)
  have fresh: "''auth-'' @ uint8ArrayToHex (getRandomValues of_nat 32)
      \<notin> set (map tr_token (tokens_table init))"
    by (simp add: init_def)
  have dist: "distinct [''write'', ''read'']" by simp
  have nul: "CHR 0x00 \<notin> set ''svc1''" "\<forall>r \<in> set [''write'', ''read'']. CHR 0x00 \<notin> set r"
    by simp_all
  have safe: "\<bar>case None of None \<Rightarrow> 0 | Some x \<Rightarrow> x\<bar> < (2 :: int) ^ 53" by simp
  from generateToken_then_getToken [OF ok, where rnd = of_nat and name = "''svc1''"
      and e = None and rs = "[''write'', ''read'']", THEN conjunct2, THEN conjunct1]
    nh fresh dist nul safe
  have "\<exists>db' t rs'. generateToken init of_nat ''svc1'' None [''write'', ''read''] = (db', Inr t) \<and>
         getToken db' ''svc1'' =
           Inr \<lparr>st_name = ''svc1'', st_expiration = (case None of None \<Rightarrow> 0 | Some x \<Rightarrow> x),
                st_rights = rs'\<rparr> \<and>
         set rs' = set [''write'', ''read'']"
    by blast
  then have "\<exists>db' t rs'. generateToken init of_nat ''svc1'' None [''write'', ''read''] = (db', Inr t) \<and>
         getToken db' ''svc1'' = Inr \<lparr>st_name = ''svc1'', st_expiration = 0, st_rights = rs'\<rparr> \<and>
         set rs' = set [''write'', ''read'']"
    by (simp only: option.case)
  with ok nh dist show ?thesis by (intro conjI) assumption+
qed

subsection \<open>C6: rights rows reference a token, and the cascade\<close>

text \<open>
  C6. In every database reachable from the empty one by calls of the public methods
  (failed calls included), every rights row has the name of a token row. After
  \<open>deleteToken\<close> of a name no rights row with that name is left, no token row has
  that name, and every remaining rights row still has the name of a token row: the
  single \<open>DELETE\<close> removes the token row and its rights rows together.
\<close>

theorem rights_reference_tokens:
  assumes "reachable db"
  shows "(\<forall>r \<in> set (rights_table db). \<exists>t \<in> set (tokens_table db). tr_name t = rr_name r)
       \<and> (\<forall>r \<in> set (rights_table (fst (deleteToken db name))). rr_name r \<noteq> name)
       \<and> \<not> hasToken (fst (deleteToken db name)) name
       \<and> (\<forall>r \<in> set (rights_table (fst (deleteToken db name))).
            \<exists>t \<in> set (tokens_table (fst (deleteToken db name))). tr_name t = rr_name r)"
proof -
  from assms have ok: "schema_ok db" by (rule reachable_schema_ok)
  then have fk: "\<forall>r \<in> set (rights_table db). \<exists>t \<in> set (tokens_table db). tr_name t = rr_name r"
    by (force simp: schema_ok_def)
  have gone: "rr_name r \<noteq> name" if "r \<in> set (rights_table (fst (deleteToken db name)))" for r
  proof (cases "hasToken db name")
    case True
    with that show ?thesis by (simp add: deleteToken_eq)
  next
    case False
    with that have "r \<in> set (rights_table db)" by (simp add: deleteToken_eq)
    with ok have "hasToken db (rr_name r)" by (simp add: hasToken_iff schema_ok_def)
    with False show ?thesis by auto
  qed
  have nh: "\<not> hasToken (fst (deleteToken db name)) name"
    by (auto simp: deleteToken_eq hasToken_iff)
  from ok have "schema_ok (fst (deleteToken db name))" by (rule deleteToken_schema_ok)
  then have fk': "\<forall>r \<in> set (rights_table (fst (deleteToken db name))).
            \<exists>t \<in> set (tokens_table (fst (deleteToken db name))). tr_name t = rr_name r"
    by (force simp: schema_ok_def)
  from fk gone nh fk' show ?thesis by blast
qed

theorem rights_reference_tokens_witness:
  "reachable (run (GenerateToken (of_nat \<circ> Suc) ''svc1'' None [''read'', ''write''])
       (run (GenerateToken of_nat ''t'' None [''a'', ''b'', ''a'']) init))
   \<and> rights_table (run (GenerateToken (of_nat \<circ> Suc) ''svc1'' None [''read'', ''write''])
       (run (GenerateToken of_nat ''t'' None [''a'', ''b'', ''a'']) init))
      = [\<lparr>rr_name = ''t'', rr_right = ''a''\<rparr>, \<lparr>rr_name = ''t'', rr_right = ''b''\<rparr>,
         \<lparr>rr_name = ''svc1'', rr_right = ''read''\<rparr>, \<lparr>rr_name = ''svc1'', rr_right = ''write''\<rparr>]
   \<and> rights_table (fst (deleteToken (run (GenerateToken (of_nat \<circ> Suc) ''svc1'' None [''read'', ''write''])
       (run (GenerateToken of_nat ''t'' None [''a'', ''b'', ''a'']) init)) ''t''))
      = [\<lparr>rr_name = ''svc1'', rr_right = ''read''\<rparr>, \<lparr>rr_name = ''svc1'', rr_right = ''write''\<rparr>]"
proof -
  have r: "reachable (run (GenerateToken (of_nat \<circ> Suc) ''svc1'' None [''read'', ''write''])
       (run (GenerateToken of_nat ''t'' None [''a'', ''b'', ''a'']) init))"
    by (intro reachable.intros)
  have e: "rights_table (run (GenerateToken (of_nat \<circ> Suc) ''svc1'' None [''read'', ''write''])
       (run (GenerateToken of_nat ''t'' None [''a'', ''b'', ''a'']) init))
      = [\<lparr>rr_name = ''t'', rr_right = ''a''\<rparr>, \<lparr>rr_name = ''t'', rr_right = ''b''\<rparr>,
         \<lparr>rr_name = ''svc1'', rr_right = ''read''\<rparr>, \<lparr>rr_name = ''svc1'', rr_right = ''write''\<rparr>]"
    by code_simp
  have d: "rights_table (fst (deleteToken (run (GenerateToken (of_nat \<circ> Suc) ''svc1'' None [''read'', ''write''])
       (run (GenerateToken of_nat ''t'' None [''a'', ''b'', ''a'']) init)) ''t''))
      = [\<lparr>rr_name = ''svc1'', rr_right = ''read''\<rparr>, \<lparr>rr_name = ''svc1'', rr_right = ''write''\<rparr>]"
    by code_simp
  from rights_reference_tokens [OF r, of "''t''"] r e d show ?thesis by simp
qed

subsection \<open>C7: what \<open>deleteToken\<close> returns\<close>

text \<open>
  C7. For every database and name, \<open>deleteToken\<close> removes the token row with that
  name, and with it the rights rows of that name; it returns true exactly when a token
  row was removed, which is when the name was present. On a name that is not present it
  returns false, raises nothing and leaves the database as it was, so a second
  \<open>deleteToken\<close> of the same name returns false and changes nothing.
\<close>

theorem deleteToken_result:
  assumes "deleteToken db name = (db', removed)"
  shows "removed = hasToken db name
       \<and> (removed \<longleftrightarrow> tokens_table db' \<noteq> tokens_table db)
       \<and> tokens_table db' = filter (\<lambda>r. tr_name r \<noteq> name) (tokens_table db)
       \<and> (removed \<longrightarrow> rights_table db' = filter (\<lambda>r. rr_name r \<noteq> name) (rights_table db))
       \<and> (\<not> removed \<longrightarrow> db' = db)
       \<and> \<not> hasToken db' name
       \<and> deleteToken db' name = (db', False)"
proof -
  from assms have r: "removed = hasToken db name"
    and t: "tokens_table db' = filter (\<lambda>r. tr_name r \<noteq> name) (tokens_table db)"
    and rt: "rights_table db' = (if hasToken db name
          then filter (\<lambda>r. rr_name r \<noteq> name) (rights_table db) else rights_table db)"
    by (auto simp: deleteToken_eq)
  have ch: "removed \<longleftrightarrow> tokens_table db' \<noteq> tokens_table db"
    unfolding r t by (auto simp: filter_id_conv hasToken_iff)
  have same: "db' = db" if "\<not> removed"
  proof -
    from that ch have "tokens_table db' = tokens_table db" by simp
    moreover from that r rt have "rights_table db' = rights_table db" by simp
    ultimately show ?thesis by simp
  qed
  have gone: "\<not> hasToken db' name"
    by (auto simp: hasToken_iff t)
  have again: "deleteToken db' name = (db', False)"
  proof -
    from gone have "filter (\<lambda>r. tr_name r \<noteq> name) (tokens_table db') = tokens_table db'"
      by (auto simp: filter_id_conv hasToken_iff)
    with gone show ?thesis by (simp add: deleteToken_eq)
  qed
  from r ch t rt same gone again show ?thesis by simp
qed

theorem deleteToken_result_witness:
  "deleteToken (fst (generateToken init of_nat ''test'' None [''read''])) ''test'' = (init, True)
   \<and> hasToken (fst (generateToken init of_nat ''test'' None [''read''])) ''test''
   \<and> \<not> hasToken init ''test''
   \<and> deleteToken init ''test'' = (init, False)"
proof -
  have d: "deleteToken (fst (generateToken init of_nat ''test'' None [''read''])) ''test'' = (init, True)"
    by code_simp
  from deleteToken_result [OF d] d show ?thesis by simp
qed

subsection \<open>C8: \<open>hasToken\<close> and expired rows\<close>

text \<open>
  C8 says that an expired record is still returned by every lookup. On a new database,
  a token created with the expiration \<open>- 9007199254740994\<close> is stored and expired:
  \<open>hasToken\<close> is true and \<open>verifyTokenValidity\<close> is false, but \<open>getOptionalToken\<close>,
  \<open>getToken\<close> and \<open>listTokens\<close> raise a \<open>RangeError\<close> when they read its row.
\<close>

theorem hasToken_iff_row_counterexample:
  "hasToken (fst (generateToken init of_nat ''t'' (Some (- 9007199254740994)) [''a''])) ''t''
   \<and> \<not> verifyTokenValidity
         (fst (generateToken init of_nat ''t'' (Some (- 9007199254740994)) [''a''])) 0
         ''auth-000102030405060708090a0b0c0d0e0f101112131415161718191a1b1c1d1e1f''
   \<and> getOptionalToken
         (fst (generateToken init of_nat ''t'' (Some (- 9007199254740994)) [''a''])) ''t''
       = Inl RangeError
   \<and> getToken (fst (generateToken init of_nat ''t'' (Some (- 9007199254740994)) [''a''])) ''t''
       = Inl RangeError
   \<and> listTokens (fst (generateToken init of_nat ''t'' (Some (- 9007199254740994)) [''a'']))
       = Inl RangeError"
  by code_simp

text \<open>
  C8, as the code has it. \<open>hasToken\<close> is true exactly when a token row has that name;
  the answer is the same whatever the expirations of the rows are, and the call leaves
  the database as it is. No call sweeps expired rows: a token row stays in the table
  through every call other than \<open>deleteToken\<close> of its own name. A row whose expiration
  is non-zero and not in the future fails \<open>verifyTokenValidity\<close> (which leaves it in
  place) and is still returned by \<open>hasToken\<close>. When the magnitude of its expiration is
  below \<open>2^53\<close> and its name has no NUL character, it is returned by
  \<open>getOptionalToken\<close> and \<open>getToken\<close>, and by \<open>listTokens\<close> when the expiration
  of every stored row is that small.
\<close>

theorem hasToken_iff_row:
  "(hasToken db name \<longleftrightarrow> (\<exists>r \<in> set (tokens_table db). tr_name r = name))
   \<and> hasToken (db\<lparr>tokens_table := map (tr_expiration_update f) (tokens_table db)\<rparr>) name
       = hasToken db name
   \<and> run (HasToken name) db = db
   \<and> (\<forall>r \<in> set (tokens_table db). \<forall>c. c \<noteq> DeleteToken (tr_name r) \<longrightarrow>
         r \<in> set (tokens_table (run c db)))
   \<and> (schema_ok db \<longrightarrow>
        (\<forall>r \<in> set (tokens_table db).
           tr_expiration r \<noteq> 0 \<and> tr_expiration r \<le> nowMs div 1000 \<longrightarrow>
             \<not> verifyTokenValidity db nowMs (tr_token r)
             \<and> run (VerifyTokenValidity nowMs (tr_token r)) db = db
             \<and> hasToken db (tr_name r)
             \<and> (\<bar>tr_expiration r\<bar> < 2 ^ 53 \<and> CHR 0x00 \<notin> set (tr_name r) \<longrightarrow>
                  getOptionalToken db (tr_name r)
                    = Inr (Some (getTokenRights db (tr_name r, tr_expiration r)))
                  \<and> getToken db (tr_name r)
                    = Inr (getTokenRights db (tr_name r, tr_expiration r))
                  \<and> ((\<forall>r' \<in> set (tokens_table db). \<bar>tr_expiration r'\<bar> < 2 ^ 53) \<longrightarrow>
                       (\<exists>l. listTokens db = Inr l
                          \<and> getTokenRights db (tr_name r, tr_expiration r) \<in> set l)))))"
proof -
  have iff: "hasToken db name \<longleftrightarrow> (\<exists>r \<in> set (tokens_table db). tr_name r = name)"
    by (auto simp: hasToken_iff)
  have kept: "\<forall>r \<in> set (tokens_table db). \<forall>c. c \<noteq> DeleteToken (tr_name r) \<longrightarrow>
         r \<in> set (tokens_table (run c db))"
    by (simp add: run_tokens_kept)
  have expired: "\<not> verifyTokenValidity db nowMs (tr_token r)
             \<and> run (VerifyTokenValidity nowMs (tr_token r)) db = db
             \<and> hasToken db (tr_name r)"
    if ok: "schema_ok db" and r: "r \<in> set (tokens_table db)"
      and e: "tr_expiration r \<noteq> 0" "tr_expiration r \<le> nowMs div 1000" for r
  proof -
    from ok have d: "distinct (map tr_token (tokens_table db))"
      by (simp add: schema_ok_def)
    from verifyTokenValidity_row [OF d r, of nowMs] e
    have "\<not> verifyTokenValidity db nowMs (tr_token r)" by simp
    moreover from r have "hasToken db (tr_name r)" by (simp add: hasToken_iff)
    ultimately show ?thesis by simp
  qed
  have returned: "getOptionalToken db (tr_name r)
                    = Inr (Some (getTokenRights db (tr_name r, tr_expiration r)))
                  \<and> getToken db (tr_name r)
                    = Inr (getTokenRights db (tr_name r, tr_expiration r))
                  \<and> ((\<forall>r' \<in> set (tokens_table db). \<bar>tr_expiration r'\<bar> < 2 ^ 53) \<longrightarrow>
                       (\<exists>l. listTokens db = Inr l
                          \<and> getTokenRights db (tr_name r, tr_expiration r) \<in> set l))"
    if ok: "schema_ok db" and r: "r \<in> set (tokens_table db)"
      and safe: "\<bar>tr_expiration r\<bar> < 2 ^ 53" and nul: "CHR 0x00 \<notin> set (tr_name r)" for r
  proof -
    from ok have d: "distinct (map tr_name (tokens_table db))"
      by (simp add: schema_ok_def)
    from d r safe nul
    have get: "getOptionalToken db (tr_name r)
        = Inr (Some (getTokenRights db (tr_name r, tr_expiration r)))"
      by (rule getOptionalToken_row_safe)
    then have strict: "getToken db (tr_name r)
        = Inr (getTokenRights db (tr_name r, tr_expiration r))"
      by (simp add: getToken_def)
    have listed: "\<exists>l. listTokens db = Inr l
        \<and> getTokenRights db (tr_name r, tr_expiration r) \<in> set l"
      if all: "\<forall>r' \<in> set (tokens_table db). \<bar>tr_expiration r'\<bar> < 2 ^ 53"
    proof -
      let ?l = "map (\<lambda>r. getTokenRights db (read_text (tr_name r), tr_expiration r))
          (tokens_table db)"
      from all have "listTokens db = Inr ?l" by (rule listTokens_safe)
      moreover from r have "getTokenRights db (read_text (tr_name r), tr_expiration r) \<in> set ?l"
        by (simp only: set_map) (rule imageI)
      then have "getTokenRights db (tr_name r, tr_expiration r) \<in> set ?l"
        using read_text_id [OF nul] by simp
      ultimately show ?thesis by blast
    qed
    from get strict listed show ?thesis by blast
  qed
  from iff kept expired returned show ?thesis
    by (simp add: hasToken_expiration_update)
qed

theorem hasToken_iff_row_witness:
  "schema_ok \<lparr>tokens_table = [\<lparr>tr_name = ''test'', tr_expiration = 1, tr_token = ''s''\<rparr>],
       rights_table = [\<lparr>rr_name = ''test'', rr_right = ''read''\<rparr>]\<rparr>
   \<and> \<not> verifyTokenValidity \<lparr>tokens_table = [\<lparr>tr_name = ''test'', tr_expiration = 1, tr_token = ''s''\<rparr>],
       rights_table = [\<lparr>rr_name = ''test'', rr_right = ''read''\<rparr>]\<rparr> 5000 ''s''
   \<and> hasToken \<lparr>tokens_table = [\<lparr>tr_name = ''test'', tr_expiration = 1, tr_token = ''s''\<rparr>],
       rights_table = [\<lparr>rr_name = ''test'', rr_right = ''read''\<rparr>]\<rparr> ''test''
   \<and> getToken \<lparr>tokens_table = [\<lparr>tr_name = ''test'', tr_expiration = 1, tr_token = ''s''\<rparr>],
       rights_table = [\<lparr>rr_name = ''test'', rr_right = ''read''\<rparr>]\<rparr> ''test''
       = Inr \<lparr>st_name = ''test'', st_expiration = 1, st_rights = [''read'']\<rparr>
   \<and> listTokens \<lparr>tokens_table = [\<lparr>tr_name = ''test'', tr_expiration = 1, tr_token = ''s''\<rparr>],
       rights_table = [\<lparr>rr_name = ''test'', rr_right = ''read''\<rparr>]\<rparr>
       = Inr [\<lparr>st_name = ''test'', st_expiration = 1, st_rights = [''read'']\<rparr>]
   \<and> \<lparr>tr_name = ''test'', tr_expiration = 1, tr_token = ''s''\<rparr>
        \<in> set (tokens_table (run (VerifyTokenValidity 5000 ''s'')
             \<lparr>tokens_table = [\<lparr>tr_name = ''test'', tr_expiration = 1, tr_token = ''s''\<rparr>],
              rights_table = [\<lparr>rr_name = ''test'', rr_right = ''read''\<rparr>]\<rparr>))"
proof -
  have rights: "getTokenRights \<lparr>tokens_table = [\<lparr>tr_name = ''test'', tr_expiration = 1, tr_token = ''s''\<rparr>],
       rights_table = [\<lparr>rr_name = ''test'', rr_right = ''read''\<rparr>]\<rparr> (''test'', 1)
       = \<lparr>st_name = ''test'', st_expiration = 1, st_rights = [''read'']\<rparr>"
    by code_simp
  have list: "listTokens \<lparr>tokens_table = [\<lparr>tr_name = ''test'', tr_expiration = 1, tr_token = ''s''\<rparr>],
       rights_table = [\<lparr>rr_name = ''test'', rr_right = ''read''\<rparr>]\<rparr>
       = Inr [\<lparr>st_name = ''test'', st_expiration = 1, st_rights = [''read'']\<rparr>]"
    by code_simp
  show ?thesis
    using hasToken_iff_row [where db = "\<lparr>tokens_table = [\<lparr>tr_name = ''test'', tr_expiration = 1, tr_token = ''s''\<rparr>],
       rights_table = [\<lparr>rr_name = ''test'', rr_right = ''read''\<rparr>]\<rparr>"
      and name = "''test''" and nowMs = 5000] rights list
    by (simp add: schema_ok_def)
qed

subsection \<open>C9: the secret\<close>

text \<open>
  C9. Whenever \<open>generateToken\<close> returns a record, in a database reachable from the
  empty one, the secret of the record is \<open>auth-\<close> followed by the hexadecimal
  rendering of the 32 bytes read from the random source: byte \<open>i\<close> of the source gives
  the two digits at the positions \<open>5 + 2 i\<close> and \<open>5 + 2 i + 1\<close> of the secret, 64
  hexadecimal digits in all, and another random source gives the same secret exactly
  when it gives the same 32 bytes. The secret is not the secret of any row stored
  before, the secrets of the rows stored afterwards are pairwise distinct, and each of
  them has this format. \<open>getOptionalToken\<close>, \<open>getToken\<close> and \<open>listTokens\<close> return
  the same on the database in which every stored secret is blanked: no lookup or listing
  reads a secret.
\<close>

theorem generateToken_secret:
  assumes "reachable db" and "generateToken db rnd name e rs = (db', Inr t)"
  shows "tk_token t = ''auth-'' @ uint8ArrayToHex (getRandomValues rnd 32)
       \<and> length (getRandomValues rnd 32) = 32
       \<and> (\<forall>i<32. getRandomValues rnd 32 ! i = rnd i)
       \<and> (\<forall>i<32. tk_token t ! (5 + 2 * i) = hexDigit (unat (rnd i) div 16)
                \<and> tk_token t ! (5 + 2 * i + 1) = hexDigit (unat (rnd i) mod 16))
       \<and> (\<forall>rnd2. ''auth-'' @ uint8ArrayToHex (getRandomValues rnd2 32) = tk_token t
                \<longleftrightarrow> (\<forall>i<32. rnd2 i = rnd i))
       \<and> length (uint8ArrayToHex (getRandomValues rnd 32)) = 64
       \<and> (\<forall>c \<in> set (uint8ArrayToHex (getRandomValues rnd 32)). c \<in> set ''0123456789abcdef'')
       \<and> tk_token t \<notin> set (map tr_token (tokens_table db))
       \<and> distinct (map tr_token (tokens_table db'))
       \<and> (\<forall>r \<in> set (tokens_table db'). is_secret (tr_token r))
       \<and> (\<forall>n. getOptionalToken (redact db') n = getOptionalToken db' n
              \<and> getToken (redact db') n = getToken db' n)
       \<and> listTokens (redact db') = listTokens db'"
proof -
  note g = generateToken_Inr [OF assms(2)]
  have db': "db' = run (GenerateToken rnd name e rs) db"
    using assms(2) by simp
  from assms(1) have r': "reachable db'"
    unfolding db' by (rule reachable_run)
  from g(3) have tok: "tk_token t = ''auth-'' @ uint8ArrayToHex (getRandomValues rnd 32)"
    by simp
  have len: "length (getRandomValues rnd 32) = 32"
    by (rule length_getRandomValues)
  have bytes: "\<forall>i<32. getRandomValues rnd 32 ! i = rnd i"
    by (simp add: nth_getRandomValues)
  have digits: "\<forall>i<32. tk_token t ! (5 + 2 * i) = hexDigit (unat (rnd i) div 16)
                \<and> tk_token t ! (5 + 2 * i + 1) = hexDigit (unat (rnd i) mod 16)"
    unfolding tok using secret_digits [of _ rnd] by blast
  have same: "\<forall>rnd2. ''auth-'' @ uint8ArrayToHex (getRandomValues rnd2 32) = tk_token t
                \<longleftrightarrow> (\<forall>i<32. rnd2 i = rnd i)"
    unfolding tok using secret_eq_iff [of _ rnd] by blast
  have hexlen: "length (uint8ArrayToHex (getRandomValues rnd 32)) = 64"
    by (simp add: length_uint8ArrayToHex length_getRandomValues)
  have hex: "\<forall>c \<in> set (uint8ArrayToHex (getRandomValues rnd 32)). c \<in> set ''0123456789abcdef''"
    using set_uint8ArrayToHex by blast
  from r' have dist: "distinct (map tr_token (tokens_table db'))"
    using reachable_schema_ok [of db'] by (simp add: schema_ok_def)
  from r' have fmt: "\<forall>r \<in> set (tokens_table db'). is_secret (tr_token r)"
    by (rule reachable_secrets)
  have look: "\<forall>n. getOptionalToken (redact db') n = getOptionalToken db' n
              \<and> getToken (redact db') n = getToken db' n"
    by (simp add: getOptionalToken_redact getToken_redact)
  have list: "listTokens (redact db') = listTokens db'"
    by (rule listTokens_redact)
  from tok len bytes digits same hexlen hex g(2) dist fmt look list show ?thesis
    by (intro conjI)
qed

theorem generateToken_secret_witness:
  "reachable init
   \<and> generateToken init of_nat ''svc1'' None [''read'', ''write''] =
       (\<lparr>tokens_table = [\<lparr>tr_name = ''svc1'', tr_expiration = 0,
            tr_token = ''auth-000102030405060708090a0b0c0d0e0f101112131415161718191a1b1c1d1e1f''\<rparr>],
         rights_table = [\<lparr>rr_name = ''svc1'', rr_right = ''read''\<rparr>,
                         \<lparr>rr_name = ''svc1'', rr_right = ''write''\<rparr>]\<rparr>,
        Inr \<lparr>tk_name = ''svc1'', tk_expiration = 0,
             tk_token = ''auth-000102030405060708090a0b0c0d0e0f101112131415161718191a1b1c1d1e1f'',
             tk_rights = [''read'', ''write'']\<rparr>)
   \<and> getRandomValues of_nat 32 ! 31 = (31 :: 8 word)"
proof -
  have r: "reachable init" by (rule reachable_init)
  have g: "generateToken init of_nat ''svc1'' None [''read'', ''write''] =
       (\<lparr>tokens_table = [\<lparr>tr_name = ''svc1'', tr_expiration = 0,
            tr_token = ''auth-000102030405060708090a0b0c0d0e0f101112131415161718191a1b1c1d1e1f''\<rparr>],
         rights_table = [\<lparr>rr_name = ''svc1'', rr_right = ''read''\<rparr>,
                         \<lparr>rr_name = ''svc1'', rr_right = ''write''\<rparr>]\<rparr>,
        Inr \<lparr>tk_name = ''svc1'', tk_expiration = 0,
             tk_token = ''auth-000102030405060708090a0b0c0d0e0f101112131415161718191a1b1c1d1e1f'',
             tk_rights = [''read'', ''write'']\<rparr>)"
    by code_simp
  from generateToken_secret [OF r g, THEN conjunct2, THEN conjunct2, THEN conjunct1]
  have "getRandomValues of_nat 32 ! 31 = (31 :: 8 word)" by simp
  with r g show ?thesis by (intro conjI) assumption+
qed

subsection \<open>C10: no validation of the name or of the expiration\<close>

text \<open>
  C10 says that no negative expiration makes the creation fail, and that \<open>getToken\<close>
  returns the token afterwards. On a new database, creating a token with the expiration
  \<open>- 2^63\<close> raises at the insert of the token row and stores nothing, and a token
  created with the expiration \<open>- 9007199254740994\<close> is stored but \<open>getToken\<close> raises
  a \<open>RangeError\<close> when it reads it.
\<close>

theorem generateToken_no_validation_counterexample:
  "generateToken init of_nat ''t'' (Some (- 9223372036854775808)) []
     = (init, Inl SqliteConstraint)
   \<and> hasToken (fst (generateToken init of_nat ''u'' (Some (- 9007199254740994)) [])) ''u''
   \<and> getToken (fst (generateToken init of_nat ''u'' (Some (- 9007199254740994)) [])) ''u''
       = Inl RangeError"
  by code_simp

text \<open>
  C10, as the code has it. \<open>generateToken\<close> checks neither that the name is non-empty
  nor that the expiration is non-negative. On a database that satisfies the schema, for
  every name that is not present (the empty name included) and every expiration that is
  an integer of 64 bits (negative ones included), with a secret that is not yet stored
  and rights without a repetition, the call returns the record and stores the row with
  the name and the expiration as given, and \<open>hasToken\<close> is true of the name. When the
  magnitude of the expiration is below \<open>2^53\<close> and the name has no NUL character,
  \<open>getToken\<close> returns the token. When the expiration is negative and the clock is not
  before the epoch, \<open>verifyTokenValidity\<close> of the new secret is false.
\<close>

theorem generateToken_no_validation:
  assumes "schema_ok db" and "\<not> hasToken db name"
    and "''auth-'' @ uint8ArrayToHex (getRandomValues rnd 32) \<notin> set (map tr_token (tokens_table db))"
    and "distinct rs"
    and "stores_as_integer (case e of None \<Rightarrow> 0 | Some x \<Rightarrow> x)"
  shows "\<exists>db'. generateToken db rnd name e rs =
           (db', Inr \<lparr>tk_name = name, tk_expiration = (case e of None \<Rightarrow> 0 | Some x \<Rightarrow> x),
                      tk_token = ''auth-'' @ uint8ArrayToHex (getRandomValues rnd 32),
                      tk_rights = rs\<rparr>)
         \<and> \<lparr>tr_name = name, tr_expiration = (case e of None \<Rightarrow> 0 | Some x \<Rightarrow> x),
             tr_token = ''auth-'' @ uint8ArrayToHex (getRandomValues rnd 32)\<rparr>
              \<in> set (tokens_table db')
         \<and> hasToken db' name
         \<and> (\<bar>case e of None \<Rightarrow> 0 | Some x \<Rightarrow> x\<bar> < 2 ^ 53 \<and> CHR 0x00 \<notin> set name \<longrightarrow>
              (\<exists>rs'. getToken db' name =
                 Inr \<lparr>st_name = name, st_expiration = (case e of None \<Rightarrow> 0 | Some x \<Rightarrow> x),
                      st_rights = rs'\<rparr> \<and> set rs' = read_text ` set rs))
         \<and> ((case e of None \<Rightarrow> 0 | Some x \<Rightarrow> x) < 0 \<and> 0 \<le> nowMs \<longrightarrow>
               \<not> verifyTokenValidity db' nowMs (''auth-'' @ uint8ArrayToHex (getRandomValues rnd 32)))"
proof -
  let ?ex = "case e of None \<Rightarrow> 0 | Some x \<Rightarrow> x"
  let ?tok = "''auth-'' @ uint8ArrayToHex (getRandomValues rnd 32)"
  let ?row = "\<lparr>tr_name = name, tr_expiration = ?ex, tr_token = ?tok\<rparr>"
  let ?t = "\<lparr>tk_name = name, tk_expiration = ?ex, tk_token = ?tok, tk_rights = rs\<rparr>"
  let ?db' = "\<lparr>tokens_table = tokens_table db @ [?row],
       rights_table = rights_table db @ map (\<lambda>r. \<lparr>rr_name = name, rr_right = r\<rparr>) rs\<rparr>"
  have g: "generateToken db rnd name e rs = (?db', Inr ?t)"
    using assms by (rule generateToken_created)
  have row: "?row \<in> set (tokens_table ?db')" by simp
  then have has: "hasToken ?db' name" by (force simp: hasToken_iff)
  have get: "\<exists>rs'. getToken ?db' name =
        Inr \<lparr>st_name = name, st_expiration = ?ex, st_rights = rs'\<rparr> \<and> set rs' = read_text ` set rs"
    if "\<bar>?ex\<bar> < 2 ^ 53" "CHR 0x00 \<notin> set name"
  proof -
    from generateToken_getOptionalToken [OF assms(1) g that(2,1)]
    obtain rs' where "getOptionalToken ?db' name =
        Inr (Some \<lparr>st_name = name, st_expiration = ?ex, st_rights = rs'\<rparr>)"
      and "set rs' = read_text ` set rs"
      by blast
    then show ?thesis by (intro exI [of _ rs']) (simp add: getToken_def)
  qed
  have ok': "schema_ok ?db'"
    using generateToken_schema_ok [OF assms(1), of rnd name e rs] g by simp
  then have d: "distinct (map tr_token (tokens_table ?db'))" by (simp add: schema_ok_def)
  have neg: "\<not> verifyTokenValidity ?db' nowMs ?tok" if "?ex < 0" "0 \<le> nowMs"
  proof -
    from that(2) have "0 \<le> nowMs div 1000" by simp
    with that(1) verifyTokenValidity_row [OF d row, of nowMs] show ?thesis by simp
  qed
  from g row has get neg show ?thesis
    by (intro exI [of _ ?db'] conjI impI) blast+
qed

theorem generateToken_no_validation_witness:
  "schema_ok init \<and> \<not> hasToken init [] \<and> distinct [''read'']
   \<and> stores_as_integer (- 5)
   \<and> (\<exists>db'. generateToken init of_nat [] (Some (- 5)) [''read''] =
           (db', Inr \<lparr>tk_name = [], tk_expiration = - 5,
                      tk_token = ''auth-'' @ uint8ArrayToHex (getRandomValues of_nat 32),
                      tk_rights = [''read'']\<rparr>)
         \<and> hasToken db' []
         \<and> (\<exists>rs'. getToken db' [] = Inr \<lparr>st_name = [], st_expiration = - 5, st_rights = rs'\<rparr>)
         \<and> \<not> verifyTokenValidity db' 1700000000000
               (''auth-'' @ uint8ArrayToHex (getRandomValues of_nat 32)))"
proof -
  have ok: "schema_ok init" by (simp add: schema_ok_def init_def)
  have nh: "\<not> hasToken init []" by (simp add: hasToken_iff init_def)
  have fresh: "''auth-'' @ uint8ArrayToHex (getRandomValues of_nat 32)
      \<notin> set (map tr_token (tokens_table init))"
    by (simp add: init_def)
  have dist: "distinct [''read'']" by simp
  have range: "stores_as_integer (- 5)" by (simp add: stores_as_integer_def)
  have range': "stores_as_integer (case Some (- 5) of None \<Rightarrow> 0 | Some x \<Rightarrow> x)"
    using range by simp
  from generateToken_no_validation [OF ok nh fresh dist range', of 1700000000000]
  obtain db' where "generateToken init of_nat [] (Some (- 5)) [''read''] =
           (db', Inr \<lparr>tk_name = [], tk_expiration = - 5,
                      tk_token = ''auth-'' @ uint8ArrayToHex (getRandomValues of_nat 32),
                      tk_rights = [''read'']\<rparr>)"
    and "hasToken db' []"
    and "\<exists>rs'. getToken db' [] = Inr \<lparr>st_name = [], st_expiration = - 5, st_rights = rs'\<rparr>"
    and "\<not> verifyTokenValidity db' 1700000000000
               (''auth-'' @ uint8ArrayToHex (getRandomValues of_nat 32))"
    by (simp only: option.case) auto
  with ok nh dist range show ?thesis by blast
qed

end
